theory Spec2Isabelle
  imports Complex_Main "HOL-Library.Product_Lexorder" "HOL-Library.Multiset"
begin

section \<open>Labelled arrays\<close>

text \<open>
  The functions of \<^verbatim>\<open>urbanspoon/core.py\<close> take and return labelled arrays: every
  dimension has a name and a list of coordinate labels, and the operations address
  dimensions by name, never by position. An array is therefore modelled by the ordered
  list of its dimensions (name and labels) and by its cells, read through an index that
  gives a position for every dimension name. A cell of a numeric field is a real number or
  missing (the not-a-number marker of the array library): \<open>None\<close> is the missing value.
  Rounding is not modelled: arithmetic is that of the real numbers.

  A timestamp is a calendar date (year, month, day), ordered lexicographically; date
  strings such as \<^verbatim>\<open>"2080"\<close> are resolved to the first and last timestamp of the period
  they name by the index of the array library, which the model takes as a parameter
  \<open>resolve\<close>.

  A default argument of the source is written out where the source relies on it (the
  weighting \<^verbatim>\<open>"GMST"\<close> in the composite reduction); the default list of time slices
  is modelled by an optional argument.
\<close>

type_synonym timestamp = "int \<times> nat \<times> nat"

definition year_of :: "timestamp \<Rightarrow> int" where
  "year_of t = fst t"

datatype axis = Stamps "timestamp list" | Nums "real list" | Ints "int list"

fun axis_size :: "axis \<Rightarrow> nat" where
  "axis_size (Stamps ts) = length ts"
| "axis_size (Nums xs) = length xs"
| "axis_size (Ints ys) = length ys"

type_synonym index = "string \<Rightarrow> nat"

type_synonym cell = "real option"

record 'c dataarray =
  dims :: "(string \<times> axis) list"
  vals :: "index \<Rightarrow> 'c"

text \<open>
  \<open>ValueError\<close> carries its message. \<open>KeyError\<close> is the failed lookup of a coordinate
  label and carries the label. \<open>LibraryError\<close> stands for every other exception the array
  library raises: on an array that lacks a dimension the function needs, whose labels
  are of the wrong kind, or whose time axis it cannot slice.
\<close>

datatype error = ValueError string | KeyError real | LibraryError

text \<open>The result of a floating-point division: a number, not-a-number, or an infinity.\<close>

datatype npfloat = Fin real | NaN | PosInf | NegInf

definition coord :: "'c dataarray \<Rightarrow> string \<Rightarrow> axis option" where
  "coord da d = map_of (dims da) d"

definition drop_dims :: "string list \<Rightarrow> (string \<times> axis) list \<Rightarrow> (string \<times> axis) list" where
  "drop_dims ds xs = filter (\<lambda>p. fst p \<notin> set ds) xs"

definition dim_size :: "'c dataarray \<Rightarrow> string \<Rightarrow> nat" where
  "dim_size da d = (case coord da d of None \<Rightarrow> 0 | Some ax \<Rightarrow> axis_size ax)"

subsection \<open>Element-wise operations of the array library\<close>

text \<open>\<^verbatim>\<open>xr.DataArray(np.ones(da.shape), dims=da.dims, coords=da.coords)\<close>\<close>

definition xr_ones :: "'c dataarray \<Rightarrow> real dataarray" where
  "xr_ones da = \<lparr>dims = dims da, vals = (\<lambda>ix. 1)\<rparr>"

text \<open>
  \<^verbatim>\<open>a * w\<close> for a one-dimensional array \<open>w\<close> over the dimension \<open>d\<close> of \<open>a\<close>: the
  library broadcasts \<open>w\<close> along \<open>d\<close>, matching dimensions by name.
\<close>

definition xr_mul_along :: "string \<Rightarrow> real dataarray \<Rightarrow> real list \<Rightarrow> real dataarray" where
  "xr_mul_along d a w = \<lparr>dims = dims a, vals = (\<lambda>ix. vals a ix * w ! ix d)\<rparr>"

text \<open>\<^verbatim>\<open>da.isnull()\<close> and its negation \<^verbatim>\<open>~da.isnull()\<close>.\<close>

definition xr_isnull :: "cell dataarray \<Rightarrow> bool dataarray" where
  "xr_isnull da = \<lparr>dims = dims da, vals = (\<lambda>ix. vals da ix = None)\<rparr>"

definition xr_not :: "bool dataarray \<Rightarrow> bool dataarray" where
  "xr_not b = \<lparr>dims = dims b, vals = (\<lambda>ix. \<not> vals b ix)\<rparr>"

text \<open>\<^verbatim>\<open>a.where(cond, other)\<close>: the cell of \<open>a\<close> where \<open>cond\<close> holds, \<open>other\<close> elsewhere.\<close>

definition xr_where :: "real dataarray \<Rightarrow> bool dataarray \<Rightarrow> real \<Rightarrow> real dataarray" where
  "xr_where a cond other = \<lparr>dims = dims a, vals = (\<lambda>ix. if vals cond ix then vals a ix else other)\<rparr>"

text \<open>\<^verbatim>\<open>da * w\<close> on arrays of one shape: a missing cell stays missing.\<close>

definition xr_mul :: "cell dataarray \<Rightarrow> real dataarray \<Rightarrow> cell dataarray" where
  "xr_mul da w = \<lparr>dims = dims da, vals = (\<lambda>ix. map_option (\<lambda>v. v * vals w ix) (vals da ix))\<rparr>"

text \<open>
  \<^verbatim>\<open>a.sum(dim=(d1, d2))\<close>: the sum over all positions of the two dimensions, which
  leave the result. On a field with missing cells the library skips them (its default
  for floating-point data), so that a missing cell adds nothing.
\<close>

definition xr_sum2 :: "string \<Rightarrow> string \<Rightarrow> real dataarray \<Rightarrow> real dataarray" where
  "xr_sum2 d1 d2 a =
     \<lparr>dims = drop_dims [d1, d2] (dims a),
      vals = (\<lambda>ix. \<Sum>i\<leftarrow>[0..<dim_size a d1]. \<Sum>j\<leftarrow>[0..<dim_size a d2].
                     vals a (ix(d1 := i, d2 := j)))\<rparr>"

definition skipna :: "cell dataarray \<Rightarrow> real dataarray" where
  "skipna da = \<lparr>dims = dims da, vals = (\<lambda>ix. case vals da ix of None \<Rightarrow> 0 | Some v \<Rightarrow> v)\<rparr>"

definition xr_nansum2 :: "string \<Rightarrow> string \<Rightarrow> cell dataarray \<Rightarrow> real dataarray" where
  "xr_nansum2 d1 d2 da = xr_sum2 d1 d2 (skipna da)"

text \<open>
  Floating-point division does not raise: zero by zero is not-a-number, and a non-zero
  number by zero is an infinity of its sign.
\<close>

definition np_div :: "real \<Rightarrow> real \<Rightarrow> npfloat" where
  "np_div a b =
     (if b \<noteq> 0 then Fin (a / b)
      else if a = 0 then NaN
      else if 0 < a then PosInf else NegInf)"

definition xr_div :: "real dataarray \<Rightarrow> real dataarray \<Rightarrow> npfloat dataarray" where
  "xr_div a b = \<lparr>dims = dims a, vals = (\<lambda>ix. np_div (vals a ix) (vals b ix))\<rparr>"

section \<open>Spatial reduction\<close>

text \<open>
  \<^verbatim>\<open>xr_collapse_across_space(da, weighting="GMST")\<close>. The test of \<open>weighting\<close> comes
  first; \<^verbatim>\<open>da["lat"]\<close> needs a latitude dimension with numeric labels, and the sums need
  the longitude dimension.
\<close>

definition xr_collapse_across_space :: "cell dataarray \<Rightarrow> string \<Rightarrow> error + npfloat dataarray" where
  "xr_collapse_across_space da weighting =
     (if weighting = ''GMST'' then
        (case coord da ''lat'' of
           Some (Nums lats) \<Rightarrow>
             (case coord da ''lon'' of
                None \<Rightarrow> Inl LibraryError
              | Some lons \<Rightarrow>
                  let lat_weights = map (\<lambda>l. cos (l * pi / 180)) lats;
                      ones = xr_ones da;
                      weights = xr_mul_along ''lat'' ones lat_weights;
                      masked_weights = xr_where weights (xr_not (xr_isnull da)) 0;
                      out = xr_div (xr_nansum2 ''lat'' ''lon'' (xr_mul da masked_weights))
                                   (xr_sum2 ''lat'' ''lon'' masked_weights)
                  in Inr out)
         | _ \<Rightarrow> Inl LibraryError)
      else Inl (ValueError (weighting @ '' is an unknown weighting scheme'')))"

section \<open>Temporal reduction\<close>

subsection \<open>Reductions of a series of cells\<close>

text \<open>The values of a series that are not missing, in their order.\<close>

fun valid :: "cell list \<Rightarrow> real list" where
  "valid [] = []"
| "valid (None # xs) = valid xs"
| "valid (Some v # xs) = v # valid xs"

text \<open>
  The mean of the library skips missing cells, and is itself missing when nothing is
  left; its count is the number of cells that are not missing.
\<close>

definition nanmean :: "cell list \<Rightarrow> cell" where
  "nanmean xs =
     (let vs = valid xs
      in if vs = [] then None else Some (sum_list vs / real (length vs)))"

definition count_valid :: "cell list \<Rightarrow> nat" where
  "count_valid xs = length (valid xs)"

subsection \<open>Grouping by calendar year\<close>

text \<open>
  \<^verbatim>\<open>da.groupby("time.year")\<close>: one group per distinct year of the time labels, the
  groups in ascending order of the year, each holding the positions of its timestamps.
\<close>

definition groupby_year :: "timestamp list \<Rightarrow> (int \<times> nat list) list" where
  "groupby_year ts =
     map (\<lambda>y. (y, filter (\<lambda>t. year_of (ts ! t) = y) [0..<length ts]))
         (sort (remdups (map year_of ts)))"

text \<open>
  A reduction of the groups (\<^verbatim>\<open>.mean()\<close>, \<^verbatim>\<open>.count()\<close>): the dimension \<open>time\<close>
  gives way to the dimension \<open>year\<close>, and a cell of the result reduces the cells of
  the group at its position along \<open>year\<close>.
\<close>

definition groupby_reduce ::
  "(cell list \<Rightarrow> 'r) \<Rightarrow> cell dataarray \<Rightarrow> (int \<times> nat list) list \<Rightarrow> 'r dataarray" where
  "groupby_reduce f da groups =
     \<lparr>dims = map (\<lambda>p. if fst p = ''time'' then (''year'', Ints (map fst groups)) else p) (dims da),
      vals = (\<lambda>ix. f (map (\<lambda>t. vals da (ix(''time'' := t))) (snd (groups ! ix ''year''))))\<rparr>"

text \<open>
  \<^verbatim>\<open>xr_average_across_days_of_year(da)\<close>. The grouping needs a time dimension whose
  labels are timestamps, and the library refuses to group an empty axis.
\<close>

definition xr_average_across_days_of_year :: "cell dataarray \<Rightarrow> error + cell dataarray" where
  "xr_average_across_days_of_year da =
     (case coord da ''time'' of
        Some (Stamps ts) \<Rightarrow>
          if ts = [] then Inl LibraryError
          else Inr (groupby_reduce nanmean da (groupby_year ts))
      | _ \<Rightarrow> Inl LibraryError)"

text \<open>\<^verbatim>\<open>da > x\<close>: a comparison with a missing cell is false.\<close>

definition xr_gt :: "cell dataarray \<Rightarrow> real \<Rightarrow> bool dataarray" where
  "xr_gt da x = \<lparr>dims = dims da, vals = (\<lambda>ix. case vals da ix of None \<Rightarrow> False | Some v \<Rightarrow> x < v)\<rparr>"

text \<open>\<^verbatim>\<open>da.where(cond)\<close>: the cell where \<open>cond\<close> holds, missing elsewhere.\<close>

definition xr_where_nan :: "cell dataarray \<Rightarrow> bool dataarray \<Rightarrow> cell dataarray" where
  "xr_where_nan da cond = \<lparr>dims = dims da, vals = (\<lambda>ix. if vals cond ix then vals da ix else None)\<rparr>"

text \<open>\<^verbatim>\<open>da.rename(old=new)\<close>: the dimension keeps its labels and its cells.\<close>

definition xr_rename :: "string \<Rightarrow> string \<Rightarrow> 'c dataarray \<Rightarrow> 'c dataarray" where
  "xr_rename old new da =
     \<lparr>dims = map (\<lambda>p. if fst p = old then (new, snd p) else p) (dims da),
      vals = (\<lambda>ix. vals da (ix(old := ix new)))\<rparr>"

text \<open>\<^verbatim>\<open>xr_count_across_days_of_year(da, count_above)\<close>\<close>

definition xr_count_across_days_of_year :: "cell dataarray \<Rightarrow> real \<Rightarrow> error + nat dataarray" where
  "xr_count_across_days_of_year da count_above =
     (case coord da ''time'' of
        Some (Stamps ts) \<Rightarrow>
          if ts = [] then Inl LibraryError
          else
            let da_count = groupby_reduce count_valid
                             (xr_where_nan da (xr_gt da count_above)) (groupby_year ts);
                da_count = xr_rename ''year'' ''time'' da_count
            in Inr da_count
      | _ \<Rightarrow> Inl LibraryError)"

subsection \<open>Time slices\<close>









section \<open>Composite reduction\<close>

text \<open>\<^verbatim>\<open>xr_collapse_to_global_time_series(da)\<close>\<close>

definition xr_collapse_to_global_time_series :: "cell dataarray \<Rightarrow> error + npfloat dataarray" where
  "xr_collapse_to_global_time_series da =
     (case xr_average_across_days_of_year da of
        Inl e \<Rightarrow> Inl e
      | Inr collapsed_across_days \<Rightarrow> xr_collapse_across_space collapsed_across_days ''GMST'')"

section \<open>Quantiles of single cells\<close>

text \<open>
  \<^verbatim>\<open>da.sel(lat=a, lon=b, drop=True)\<close> looks both labels up exactly (no nearest-neighbour
  method is given); a label that is not on the axis raises KeyError. The labels of an
  axis are taken to be distinct, as those of a grid are.
\<close>

fun label_index :: "real list \<Rightarrow> real \<Rightarrow> nat option" where
  "label_index [] x = None"
| "label_index (y # ys) x = (if y = x then Some 0 else map_option Suc (label_index ys x))"

definition xr_sel_cell :: "cell dataarray \<Rightarrow> real \<Rightarrow> real \<Rightarrow> error + cell dataarray" where
  "xr_sel_cell da a b =
     (case coord da ''lat'' of
        Some (Nums lats) \<Rightarrow>
          (case coord da ''lon'' of
             Some (Nums lons) \<Rightarrow>
               (case label_index lats a of
                  None \<Rightarrow> Inl (KeyError a)
                | Some i \<Rightarrow>
                    (case label_index lons b of
                       None \<Rightarrow> Inl (KeyError b)
                     | Some j \<Rightarrow>
                         Inr \<lparr>dims = drop_dims [''lat'', ''lon''] (dims da),
                              vals = (\<lambda>ix. vals da (ix(''lat'' := i, ''lon'' := j)))\<rparr>))
           | _ \<Rightarrow> Inl LibraryError)
      | _ \<Rightarrow> Inl LibraryError)"

text \<open>
  The quantile of the library, with its default linear interpolation: on the sorted
  values \<open>v\<^sub>0 \<dots> v\<^sub>n\<^sub>-\<^sub>1\<close> that are not missing, the quantile \<open>q\<close> lies at the position
  \<open>q (n - 1)\<close>, between the values at the two neighbouring whole positions.
\<close>

definition lerp_quantile :: "real list \<Rightarrow> real \<Rightarrow> real" where
  "lerp_quantile vs q =
     (let h = q * real (length vs - 1);
          lo = nat \<lfloor>h\<rfloor>;
          hi = min (lo + 1) (length vs - 1)
      in vs ! lo + (h - real lo) * (vs ! hi - vs ! lo))"

definition nanquantile :: "cell list \<Rightarrow> real \<Rightarrow> cell" where
  "nanquantile xs q =
     (let vs = sort (valid xs)
      in if vs = [] then None else Some (lerp_quantile vs q))"

text \<open>
  \<^verbatim>\<open>da.quantile(q=q, dim=d)\<close> for a list \<open>q\<close>: the dimension \<open>d\<close> leaves the result
  and a dimension \<open>quantile\<close>, labelled by \<open>q\<close>, comes first. A quantile outside
  \<open>[0, 1]\<close> raises ValueError.
\<close>

definition xr_quantile :: "real list \<Rightarrow> string \<Rightarrow> cell dataarray \<Rightarrow> error + cell dataarray" where
  "xr_quantile q d da =
     (if \<exists>x \<in> set q. x < 0 \<or> 1 < x
      then Inl (ValueError ''Quantiles must be in the range [0, 1]'')
      else
        (case coord da d of
           None \<Rightarrow> Inl LibraryError
         | Some ax \<Rightarrow>
             Inr \<lparr>dims = (''quantile'', Nums q) # drop_dims [d] (dims da),
                  vals = (\<lambda>ix. nanquantile (map (\<lambda>t. vals da (ix(d := t))) [0..<axis_size ax])
                                            (q ! ix ''quantile''))\<rparr>))"

text \<open>
  \<^verbatim>\<open>xr_quantiles_across_time_by_cell(da, q, cells)\<close>: the loop fills the dictionary
  \<open>results\<close>, keyed by the coordinate pair; an exception at one cell ends the call.
\<close>

fun quantile_cells ::
  "cell dataarray \<Rightarrow> real list \<Rightarrow> (real \<times> real) list \<Rightarrow> (real \<times> real \<rightharpoonup> cell dataarray)
     \<Rightarrow> error + (real \<times> real \<rightharpoonup> cell dataarray)" where
  "quantile_cells da q [] results = Inr results"
| "quantile_cells da q (c # cells) results =
     (case xr_sel_cell da (fst c) (snd c) of
        Inl e \<Rightarrow> Inl e
      | Inr cell_series \<Rightarrow>
          (case xr_quantile q ''time'' cell_series of
             Inl e \<Rightarrow> Inl e
           | Inr r \<Rightarrow> quantile_cells da q cells (results(c \<mapsto> r))))"

definition xr_quantiles_across_time_by_cell ::
  "cell dataarray \<Rightarrow> real list \<Rightarrow> (real \<times> real) list
     \<Rightarrow> error + (real \<times> real \<rightharpoonup> cell dataarray)" where
  "xr_quantiles_across_time_by_cell da q cells = quantile_cells da q cells Map.empty"

section \<open>Reference formulations\<close>

text \<open>
  The weighted spatial mean as the specification words it. The cells present at an index
  are the positions of the latitude and longitude dimensions whose cell is not missing;
  the weight of a latitude is the cosine of its angle in radians.
\<close>

definition present :: "cell dataarray \<Rightarrow> index \<Rightarrow> (nat \<times> nat) set" where
  "present da ix =
     {(i, j). i < dim_size da ''lat'' \<and> j < dim_size da ''lon''
              \<and> vals da (ix(''lat'' := i, ''lon'' := j)) \<noteq> None}"

definition gmst_weight :: "real \<Rightarrow> real" where
  "gmst_weight l = cos (l * pi / 180)"

definition weighted_mean :: "cell dataarray \<Rightarrow> real list \<Rightarrow> index \<Rightarrow> npfloat" where
  "weighted_mean da lats ix =
     np_div (\<Sum>(i, j) \<in> present da ix.
               the (vals da (ix(''lat'' := i, ''lon'' := j))) * gmst_weight (lats ! i))
            (\<Sum>(i, j) \<in> present da ix. gmst_weight (lats ! i))"

text \<open>
  The years of a time axis, each once and in ascending order, and the cells of a
  field at the timestamps of one year, in the order of the time axis.
\<close>

definition years_of :: "timestamp list \<Rightarrow> int list" where
  "years_of ts = sort (remdups (map year_of ts))"

definition cells_in_year :: "cell dataarray \<Rightarrow> timestamp list \<Rightarrow> int \<Rightarrow> index \<Rightarrow> cell list" where
  "cells_in_year da ts y ix =
     map (\<lambda>t. vals da (ix(''time'' := t))) (filter (\<lambda>t. year_of (ts ! t) = y) [0..<length ts])"

definition replace_dim :: "string \<Rightarrow> string \<times> axis \<Rightarrow> (string \<times> axis) list \<Rightarrow> (string \<times> axis) list" where
  "replace_dim d new xs = map (\<lambda>p. if fst p = d then new else p) xs"

text \<open>
  The mean of the cells at a set of positions, in the words of the specification: the
  sum of the values that are not missing, divided by their number; missing when every
  cell is missing or the set is empty.
\<close>

definition mean_over :: "nat set \<Rightarrow> (nat \<Rightarrow> cell) \<Rightarrow> cell" where
  "mean_over T c =
     (let P = {t \<in> T. c t \<noteq> None}
      in if P = {} then None else Some ((\<Sum>t \<in> P. the (c t)) / real (card P)))"

text \<open>
  The positions of the time axis whose timestamp has the year \<open>y\<close> (the first component
  of the date) and whose cell exceeds a threshold.
\<close>

definition exceedances :: "cell dataarray \<Rightarrow> timestamp list \<Rightarrow> real \<Rightarrow> int \<Rightarrow> index \<Rightarrow> nat set" where
  "exceedances da ts x y ix =
     {t. t < length ts \<and> fst (ts ! t) = y
         \<and> (\<exists>v. vals da (ix(''time'' := t)) = Some v \<and> x < v)}"


text \<open>
  The time series of the cell at the positions \<open>i\<close> of the latitudes and \<open>j\<close> of the
  longitudes, and the array of its quantiles.
\<close>

definition cell_series :: "cell dataarray \<Rightarrow> nat \<Rightarrow> nat \<Rightarrow> index \<Rightarrow> cell list" where
  "cell_series da i j ix =
     map (\<lambda>t. vals da (ix(''time'' := t, ''lat'' := i, ''lon'' := j))) [0..<dim_size da ''time'']"

definition cell_quantiles :: "cell dataarray \<Rightarrow> real list \<Rightarrow> nat \<Rightarrow> nat \<Rightarrow> cell dataarray" where
  "cell_quantiles da q i j =
     \<lparr>dims = (''quantile'', Nums q) # drop_dims [''time''] (drop_dims [''lat'', ''lon''] (dims da)),
      vals = (\<lambda>ix. nanquantile (cell_series da i j ix) (q ! ix ''quantile''))\<rparr>"

text \<open>
  The quantile as the specification words it, with linear interpolation. The values of a
  series that are not missing, put in ascending order, are \<open>v\<^sub>0 \<dots> v\<^sub>n\<^sub>-\<^sub>1\<close>; the quantile
  \<open>q\<close> lies at the position \<open>h = q (n - 1)\<close>, on the line between the values at the whole
  positions just below and just above \<open>h\<close>. A series with no value has a missing quantile.
\<close>

definition interpolate :: "real list \<Rightarrow> real \<Rightarrow> real" where
  "interpolate vs h = vs ! nat \<lfloor>h\<rfloor> + (h - of_int \<lfloor>h\<rfloor>) * (vs ! nat \<lceil>h\<rceil> - vs ! nat \<lfloor>h\<rfloor>)"

definition is_quantile :: "cell list \<Rightarrow> real \<Rightarrow> cell \<Rightarrow> bool" where
  "is_quantile series q r \<longleftrightarrow>
     (\<exists>vs. sorted vs
         \<and> mset (map Some vs) = filter_mset (\<lambda>c. c \<noteq> None) (mset series)
         \<and> r = (if vs = [] then None
                else Some (interpolate vs (q * real (length vs - 1)))))"

section \<open>Example fields\<close>


text \<open>A field whose cells are all missing.\<close>

definition all_missing_field :: "cell dataarray" where
  "all_missing_field =
     \<lparr>dims = [(''lat'', Nums [0, 45]), (''lon'', Nums [10])], vals = (\<lambda>ix. None)\<rparr>"

text \<open>
  The series of the test of the yearly mean: the values \<open>1, 2, 3, 4\<close> on four
  consecutive days of one year, on a grid of one cell.
\<close>

definition four_days_axis :: "timestamp list" where
  "four_days_axis = [(1995, 1, 1), (1995, 1, 2), (1995, 1, 3), (1995, 1, 4)]"

definition four_days :: "cell dataarray" where
  "four_days =
     \<lparr>dims = [(''time'', Stamps four_days_axis), (''lat'', Nums [1]), (''lon'', Nums [1])],
      vals = (\<lambda>ix. Some ([1, 2, 3, 4] ! ix ''time''))\<rparr>"

text \<open>
  A series over two years on a grid of one cell: the values \<open>1, 2\<close> on two days of
  1995, and the values 3, missing, 5 on three days of 1996.
\<close>

definition two_years_axis :: "timestamp list" where
  "two_years_axis = [(1995, 6, 1), (1995, 6, 2), (1996, 6, 1), (1996, 6, 2), (1996, 6, 3)]"

definition two_years :: "cell dataarray" where
  "two_years =
     \<lparr>dims = [(''time'', Stamps two_years_axis), (''lat'', Nums [1]), (''lon'', Nums [1])],
      vals = (\<lambda>ix. [Some 1, Some 2, Some 3, None, Some 5] ! ix ''time'')\<rparr>"

text \<open>
  A series of ones with a gap: two days of 1995 with the value 1, and one day of 1996
  whose value is missing.
\<close>

definition gappy_axis :: "timestamp list" where
  "gappy_axis = [(1995, 1, 1), (1995, 1, 2), (1996, 1, 1)]"

definition gappy_ones :: "cell dataarray" where
  "gappy_ones =
     \<lparr>dims = [(''time'', Stamps gappy_axis)],
      vals = (\<lambda>ix. if ix ''time'' < 2 then Some 1 else None)\<rparr>"






text \<open>
  The field of the test of the quantiles: a ramp \<open>1, \<dots>, 100\<close> along time, the same in
  each cell of a grid with the latitudes \<open>-90, 90\<close> and the longitudes \<open>-180, 180\<close>.
\<close>

definition ramp :: "cell dataarray" where
  "ramp =
     \<lparr>dims = [(''time'', Stamps (map (\<lambda>k. (1995, k div 30 + 1, k mod 30 + 1)) [0..<100])),
              (''lat'', Nums [- 90, 90]), (''lon'', Nums [- 180, 180])],
      vals = (\<lambda>ix. Some (real (ix ''time'' + 1)))\<rparr>"

text \<open>
  A field of four days with two cells whose series differ: at the latitude \<open>10\<close> the
  values \<open>3, 1, 2\<close> around a missing day, at the latitude \<open>20\<close> the values
  \<open>10, 40, 20, 30\<close>.
\<close>

definition two_cells :: "cell dataarray" where
  "two_cells =
     \<lparr>dims = [(''time'', Stamps four_days_axis), (''lat'', Nums [10, 20]), (''lon'', Nums [5])],
      vals = (\<lambda>ix. if ix ''lat'' = 0 then [Some 3, None, Some 1, Some 2] ! ix ''time''
                    else [Some 10, Some 40, Some 20, Some 30] ! ix ''time'')\<rparr>"

section \<open>Auxiliary facts\<close>

lemma sum_list_upt2:
  "(\<Sum>i\<leftarrow>[0..<n]. \<Sum>j\<leftarrow>[0..<m]. f i j) = (\<Sum>(i, j) \<in> {..<n} \<times> {..<m}. (f i j :: real))"
  by (simp add: interv_sum_list_conv_sum_set_nat atLeast0LessThan sum.cartesian_product)

lemma present_sub: "present da ix \<subseteq> {..<dim_size da ''lat''} \<times> {..<dim_size da ''lon''}"
  by (auto simp: present_def)

lemma sum_present:
  assumes "\<And>i j. vals da (ix(''lat'' := i, ''lon'' := j)) = None \<Longrightarrow> f i j = 0"
  shows "(\<Sum>(i, j) \<in> {..<dim_size da ''lat''} \<times> {..<dim_size da ''lon''}. (f i j :: real))
          = (\<Sum>(i, j) \<in> present da ix. f i j)"
proof (rule sum.mono_neutral_right)
  show "finite ({..<dim_size da ''lat''} \<times> {..<dim_size da ''lon''})" by simp
  show "present da ix \<subseteq> {..<dim_size da ''lat''} \<times> {..<dim_size da ''lon''}" by (rule present_sub)
  show "\<forall>p \<in> {..<dim_size da ''lat''} \<times> {..<dim_size da ''lon''} - present da ix. (case p of (i, j) \<Rightarrow> f i j) = 0"
    using assms by (auto simp: present_def)
qed

lemma dims_ops [simp]:
  "dims (xr_ones da) = dims da"
  "dims (xr_mul_along d a w) = dims a"
  "dims (xr_isnull da) = dims da"
  "dims (xr_not c) = dims c"
  "dims (xr_where a cond other) = dims a"
  "dims (xr_mul da a) = dims da"
  "dims (skipna da) = dims da"
  "dims (xr_sum2 d1 d2 a) = drop_dims [d1, d2] (dims a)"
  "dims (xr_nansum2 d1 d2 da) = drop_dims [d1, d2] (dims da)"
  "dims (xr_div a a') = dims a"
  by (simp_all add: xr_ones_def xr_mul_along_def xr_isnull_def xr_not_def xr_where_def
        xr_mul_def skipna_def xr_sum2_def xr_nansum2_def xr_div_def)

lemma vals_ops [simp]:
  "vals (xr_ones da) ix = 1"
  "vals (xr_mul_along d a w) ix = vals a ix * w ! ix d"
  "vals (xr_isnull da) ix = (vals da ix = None)"
  "vals (xr_not c) ix = (\<not> vals c ix)"
  "vals (xr_where a cond other) ix = (if vals cond ix then vals a ix else other)"
  "vals (xr_mul da a) ix = map_option (\<lambda>v. v * vals a ix) (vals da ix)"
  "vals (skipna da) ix = (case vals da ix of None \<Rightarrow> 0 | Some v \<Rightarrow> v)"
  "vals (xr_div a a') ix = np_div (vals a ix) (vals a' ix)"
  by (simp_all add: xr_ones_def xr_mul_along_def xr_isnull_def xr_not_def xr_where_def
        xr_mul_def skipna_def xr_div_def)

lemma vals_sum2:
  "vals (xr_sum2 d1 d2 a) ix
     = (\<Sum>i\<leftarrow>[0..<dim_size a d1]. \<Sum>j\<leftarrow>[0..<dim_size a d2]. vals a (ix(d1 := i, d2 := j)))"
  by (simp add: xr_sum2_def)

lemma dim_size_dims: "dims a = dims b \<Longrightarrow> dim_size a d = dim_size b d"
  by (simp add: dim_size_def coord_def)

lemma sum_list_upt_cong:
  "(\<And>i. i < n \<Longrightarrow> f i = g i) \<Longrightarrow> (\<Sum>i\<leftarrow>[0..<n]. f i) = (\<Sum>i\<leftarrow>[0..<n]. (g i :: real))"
  by (rule arg_cong [where f = sum_list]) simp

lemma collapse_across_space_gmst_eq:
  assumes lat: "coord da ''lat'' = Some (Nums lats)" and lon: "coord da ''lon'' = Some lons"
  shows "xr_collapse_across_space da ''GMST''
           = Inr \<lparr>dims = drop_dims [''lat'', ''lon''] (dims da), vals = weighted_mean da lats\<rparr>"
proof -
  let ?n = "dim_size da ''lat''" and ?m = "dim_size da ''lon''"
  let ?mw = "xr_where (xr_mul_along ''lat'' (xr_ones da) (map (\<lambda>l. cos (l * pi / 180)) lats))
               (xr_not (xr_isnull da)) 0"
  have n: "?n = length lats" using lat by (simp add: dim_size_def)
  have sz: "dim_size ?mw d = dim_size da d" "dim_size (skipna (xr_mul da ?mw)) d = dim_size da d" for d
    by (rule dim_size_dims, simp)+
  have num: "vals (xr_nansum2 ''lat'' ''lon'' (xr_mul da ?mw)) ix
      = (\<Sum>(i, j) \<in> present da ix. the (vals da (ix(''lat'' := i, ''lon'' := j))) * gmst_weight (lats ! i))" for ix
  proof -
    have "vals (xr_nansum2 ''lat'' ''lon'' (xr_mul da ?mw)) ix
        = (\<Sum>i\<leftarrow>[0..<?n]. \<Sum>j\<leftarrow>[0..<?m].
                case vals da (ix(''lat'' := i, ''lon'' := j)) of None \<Rightarrow> 0
                | Some v \<Rightarrow> v * gmst_weight (lats ! i))"
      unfolding xr_nansum2_def vals_sum2 sz
      by (intro sum_list_upt_cong) (auto simp: n gmst_weight_def split: option.splits)
    also have "\<dots> = (\<Sum>(i, j) \<in> present da ix. the (vals da (ix(''lat'' := i, ''lon'' := j))) * gmst_weight (lats ! i))"
      unfolding sum_list_upt2
      by (subst sum_present [of da ix]) (auto simp: present_def intro!: sum.cong)
    finally show ?thesis .
  qed
  have den: "vals (xr_sum2 ''lat'' ''lon'' ?mw) ix
      = (\<Sum>(i, j) \<in> present da ix. gmst_weight (lats ! i))" for ix
  proof -
    have "vals (xr_sum2 ''lat'' ''lon'' ?mw) ix
        = (\<Sum>i\<leftarrow>[0..<?n]. \<Sum>j\<leftarrow>[0..<?m].
                if vals da (ix(''lat'' := i, ''lon'' := j)) = None then 0 else gmst_weight (lats ! i))"
      unfolding vals_sum2 sz
      by (intro sum_list_upt_cong) (auto simp: n gmst_weight_def)
    also have "\<dots> = (\<Sum>(i, j) \<in> present da ix. gmst_weight (lats ! i))"
      unfolding sum_list_upt2
      by (subst sum_present [of da ix]) (auto simp: present_def intro!: sum.cong)
    finally show ?thesis .
  qed
  have "vals (xr_div (xr_nansum2 ''lat'' ''lon'' (xr_mul da ?mw)) (xr_sum2 ''lat'' ''lon'' ?mw))
          = weighted_mean da lats"
    by (rule ext) (simp add: num den weighted_mean_def)
  then show ?thesis
    using lat lon
    by (simp add: xr_collapse_across_space_def Let_def)
qed

lemma cos_deg_pos:
  assumes "- 90 < d" and "d < 90"
  shows "0 < gmst_weight d"
proof -
  have "pi * (- 90) < pi * d" and "pi * d < pi * 90"
    using assms by (simp_all only: mult_less_cancel_left_pos [OF pi_gt_zero])
  then show ?thesis
    unfolding gmst_weight_def by (intro cos_gt_zero_pi) (simp_all add: field_simps)
qed


lemma years_of_props:
  "sorted (years_of ts)" "distinct (years_of ts)" "set (years_of ts) = year_of ` set ts"
  by (simp_all add: years_of_def)

lemma groupby_year_fst: "map fst (groupby_year ts) = years_of ts"
  by (simp add: groupby_year_def years_of_def comp_def)

lemma groupby_year_snd:
  "k < length (years_of ts) \<Longrightarrow>
     snd (groupby_year ts ! k) = filter (\<lambda>t. year_of (ts ! t) = years_of ts ! k) [0..<length ts]"
  by (simp add: groupby_year_def years_of_def)

lemma vals_groupby_reduce:
  "k < length (years_of ts) \<Longrightarrow> ix ''year'' = k \<Longrightarrow>
     vals (groupby_reduce f da (groupby_year ts)) ix = f (cells_in_year da ts (years_of ts ! k) ix)"
  by (simp add: groupby_reduce_def groupby_year_snd cells_in_year_def)

lemma dims_groupby_reduce:
  "dims (groupby_reduce f da (groupby_year ts)) = replace_dim ''time'' (''year'', Ints (years_of ts)) (dims da)"
  by (simp add: groupby_reduce_def groupby_year_fst replace_dim_def)

lemma valid_map_filter:
  "valid (map c xs) = map (\<lambda>t. the (c t)) (filter (\<lambda>t. c t \<noteq> None) xs)"
proof (induction xs)
  case Nil
  then show ?case by simp
next
  case (Cons a xs)
  then show ?case by (cases "c a") simp_all
qed

lemma nanmean_mean_over:
  assumes "distinct xs"
  shows "nanmean (map c xs) = mean_over (set xs) c"
proof -
  let ?ys = "filter (\<lambda>t. c t \<noteq> None) xs"
  have d: "distinct ?ys"
    using assms by simp
  have s: "set ?ys = {t \<in> set xs. c t \<noteq> None}"
    by simp
  have "sum_list (map (\<lambda>t. the (c t)) ?ys) = (\<Sum>t \<in> set ?ys. the (c t))"
    using d by (rule sum_list_distinct_conv_sum_set)
  moreover have "length ?ys = card (set ?ys)"
    using d by (rule distinct_card [symmetric])
  moreover have "?ys = [] \<longleftrightarrow> set ?ys = {}"
    by (rule set_empty [symmetric])
  ultimately show ?thesis
    unfolding nanmean_def mean_over_def valid_map_filter Let_def s
    by (simp del: set_filter)
qed


lemma mean_over_upt:
  "mean_over {t. t < n \<and> P t} c = nanmean (map c (filter P [0..<n]))"
proof -
  have "set (filter P [0..<n]) = {t. t < n \<and> P t}"
    by auto
  with nanmean_mean_over [of "filter P [0..<n]" c] show ?thesis
    by simp
qed

lemma years_of_fst:
  "sorted (years_of ts)" "distinct (years_of ts)" "set (years_of ts) = fst ` set ts"
  by (simp_all add: years_of_def year_of_def [abs_def])

lemma sorted_distinct_years:
  assumes "sorted ys" and "distinct ys" and "set ys = fst ` set ts"
  shows "ys = years_of ts"
  using assms years_of_fst [of ts] by (intro sorted_distinct_set_unique) simp_all

lemma valid_ones: "set xs \<subseteq> {None, Some 1} \<Longrightarrow> valid xs = replicate (length (valid xs)) 1"
  by (induction xs rule: valid.induct) auto

lemma valid_empty_iff: "valid xs = [] \<longleftrightarrow> (\<forall>c \<in> set xs. c = None)"
  by (induction xs rule: valid.induct) auto

lemma nanmean_ones:
  assumes "set xs \<subseteq> {None, Some 1}"
  shows "nanmean xs = (if \<exists>c \<in> set xs. c \<noteq> None then Some 1 else None)"
proof (cases "valid xs = []")
  case True
  then show ?thesis by (simp add: nanmean_def valid_empty_iff)
next
  case False
  have "sum_list (valid xs) = real (length (valid xs))"
    by (subst valid_ones [OF assms]) (simp add: sum_list_replicate)
  moreover have "real (length (valid xs)) \<noteq> 0"
    using False by simp
  moreover have "\<exists>c \<in> set xs. c \<noteq> None"
    using False by (simp add: valid_empty_iff)
  ultimately show ?thesis
    using False by (simp add: nanmean_def Let_def)
qed

lemma count_valid_filter: "count_valid xs = length (filter (\<lambda>c. c \<noteq> None) xs)"
  unfolding count_valid_def by (induction xs rule: valid.induct) auto

lemma length_filter_upt_card: "length (filter P [0..<n]) = card {t. t < n \<and> P t}"
proof -
  have "length (filter P [0..<n]) = card (set (filter P [0..<n]))"
    by (rule distinct_card [symmetric]) simp
  also have "set (filter P [0..<n]) = {t. t < n \<and> P t}"
    by auto
  finally show ?thesis .
qed

lemma exceedances_filter:
  "exceedances da ts x y ix
     = set (filter (\<lambda>t. fst (ts ! t) = y
                         \<and> (case vals da (ix(''time'' := t)) of None \<Rightarrow> False | Some v \<Rightarrow> x < v))
                   [0..<length ts])"
  by (auto simp: exceedances_def split: option.splits)

lemma dims_rename_year:
  "''year'' \<notin> fst ` set xs \<Longrightarrow>
     map (\<lambda>p. if fst p = ''year'' then (''time'', snd p) else p) (replace_dim ''time'' (''year'', a) xs)
       = replace_dim ''time'' (''time'', a) xs"
  by (induction xs) (auto simp: replace_dim_def)
















lemma map_of_replace_other:
  "d \<noteq> old \<Longrightarrow> d \<noteq> fst new \<Longrightarrow> map_of (replace_dim old new xs) d = map_of xs d"
  by (induction xs) (auto simp: replace_dim_def)

lemma length_filter_key:
  "distinct (map fst xs) \<Longrightarrow> k \<in> fst ` set xs \<Longrightarrow> length (filter (\<lambda>p. fst p = k) xs) = 1"
proof (induction xs)
  case Nil
  then show ?case by simp
next
  case (Cons x xs)
  show ?case
  proof (cases "fst x = k")
    case True
    from Cons.prems(1) have nx: "fst x \<notin> fst ` set xs"
      by simp
    have "fst p \<noteq> k" if "p \<in> set xs" for p
    proof
      assume "fst p = k"
      moreover from that have "fst p \<in> fst ` set xs" by (rule imageI)
      ultimately show False using nx True by simp
    qed
    then have "filter (\<lambda>p. fst p = k) xs = []"
      by (simp add: filter_empty_conv)
    with True show ?thesis by simp
  next
    case False
    with Cons show ?thesis by auto
  qed
qed

lemma drop_replace_only:
  "fst ` set xs \<subseteq> {old, d1, d2} \<Longrightarrow> fst new \<notin> {d1, d2} \<Longrightarrow> old \<notin> {d1, d2} \<Longrightarrow>
     drop_dims [d1, d2] (replace_dim old new xs) = map (\<lambda>p. new) (filter (\<lambda>p. fst p = old) xs)"
  by (induction xs) (auto simp: drop_dims_def replace_dim_def)

lemma only_year_left:
  assumes "distinct (map fst xs)" and "set (map fst xs) = {''time'', ''lat'', ''lon''}"
  shows "drop_dims [''lat'', ''lon''] (replace_dim ''time'' (''year'', a) xs) = [(''year'', a)]"
proof -
  have "length (filter (\<lambda>p. fst p = ''time'') xs) = 1"
    using assms by (intro length_filter_key) auto
  then obtain x where "filter (\<lambda>p. fst p = ''time'') xs = [x]"
    by (cases "filter (\<lambda>p. fst p = ''time'') xs") auto
  moreover have "drop_dims [''lat'', ''lon''] (replace_dim ''time'' (''year'', a) xs)
      = map (\<lambda>p. (''year'', a)) (filter (\<lambda>p. fst p = ''time'') xs)"
    using assms(2) by (intro drop_replace_only) auto
  ultimately show ?thesis by simp
qed

lemma label_index_Some: "label_index xs a = Some i \<Longrightarrow> i < length xs \<and> xs ! i = a"
  by (induction xs arbitrary: i) (auto split: if_splits)

lemma label_index_None: "label_index xs a = None \<longleftrightarrow> a \<notin> set xs"
  by (induction xs) auto

lemma label_index_mem: "a \<in> set xs \<Longrightarrow> \<exists>i. label_index xs a = Some i \<and> i < length xs \<and> xs ! i = a"
  using label_index_None [of xs a] label_index_Some [of xs a] by (cases "label_index xs a") auto

lemma map_of_drop_other: "d \<notin> set ds \<Longrightarrow> map_of (drop_dims ds xs) d = map_of xs d"
  by (induction xs) (auto simp: drop_dims_def)

lemma sel_cell_found:
  assumes "coord da ''lat'' = Some (Nums lats)" and "coord da ''lon'' = Some (Nums lons)"
    and "a \<in> set lats" and "b \<in> set lons"
  shows "\<exists>i j. i < length lats \<and> lats ! i = a \<and> j < length lons \<and> lons ! j = b
           \<and> xr_sel_cell da a b
               = Inr \<lparr>dims = drop_dims [''lat'', ''lon''] (dims da),
                      vals = (\<lambda>ix. vals da (ix(''lat'' := i, ''lon'' := j)))\<rparr>"
proof -
  from label_index_mem [OF assms(3)] obtain i where
    i: "label_index lats a = Some i" "i < length lats" "lats ! i = a" by blast
  from label_index_mem [OF assms(4)] obtain j where
    j: "label_index lons b = Some j" "j < length lons" "lons ! j = b" by blast
  have "xr_sel_cell da a b
               = Inr \<lparr>dims = drop_dims [''lat'', ''lon''] (dims da),
                      vals = (\<lambda>ix. vals da (ix(''lat'' := i, ''lon'' := j)))\<rparr>"
    using assms(1,2) i(1) j(1) by (simp add: xr_sel_cell_def)
  with i(2,3) j(2,3) show ?thesis by blast
qed

lemma sel_cell_missing:
  assumes "coord da ''lat'' = Some (Nums lats)" and "coord da ''lon'' = Some (Nums lons)"
    and "a \<notin> set lats \<or> b \<notin> set lons"
  shows "xr_sel_cell da a b = Inl (KeyError (if a \<notin> set lats then a else b))"
proof (cases "a \<in> set lats")
  case True
  with assms(3) have "label_index lons b = None"
    by (simp add: label_index_None)
  moreover from True obtain i where "label_index lats a = Some i"
    using label_index_mem by blast
  ultimately show ?thesis
    using assms(1,2) True by (simp add: xr_sel_cell_def)
next
  case False
  then have "label_index lats a = None"
    by (simp add: label_index_None)
  with False show ?thesis
    using assms(1,2) by (simp add: xr_sel_cell_def)
qed

lemma quantile_of_cell:
  assumes "coord da ''time'' = Some tax" and "\<forall>x \<in> set q. 0 \<le> x \<and> x \<le> 1"
  shows "xr_quantile q ''time''
           \<lparr>dims = drop_dims [''lat'', ''lon''] (dims da),
            vals = (\<lambda>ix. vals da (ix(''lat'' := i, ''lon'' := j)))\<rparr>
         = Inr (cell_quantiles da q i j)"
proof -
  have "\<not> (\<exists>x \<in> set q. x < 0 \<or> 1 < x)"
    using assms(2) by (auto simp: not_less)
  moreover have "coord \<lparr>dims = drop_dims [''lat'', ''lon''] (dims da),
            vals = (\<lambda>ix. vals da (ix(''lat'' := i, ''lon'' := j)))\<rparr> ''time'' = Some tax"
    using assms(1) by (simp add: coord_def map_of_drop_other)
  moreover have "dim_size da ''time'' = axis_size tax"
    using assms(1) by (simp add: dim_size_def)
  ultimately show ?thesis
    by (simp add: xr_quantile_def cell_quantiles_def cell_series_def)
qed

lemma quantile_cells_ok:
  assumes "\<forall>c \<in> set cells. \<exists>s. xr_sel_cell da (fst c) (snd c) = Inr s
             \<and> xr_quantile q ''time'' s = Inr (f c)"
  shows "quantile_cells da q cells results
           = Inr (\<lambda>c. if c \<in> set cells then Some (f c) else results c)"
  using assms
proof (induction cells arbitrary: results)
  case Nil
  then show ?case by simp
next
  case (Cons c cells)
  from Cons.prems obtain s where
    s: "xr_sel_cell da (fst c) (snd c) = Inr s" "xr_quantile q ''time'' s = Inr (f c)"
    by auto
  have rest: "\<forall>c \<in> set cells. \<exists>s. xr_sel_cell da (fst c) (snd c) = Inr s
             \<and> xr_quantile q ''time'' s = Inr (f c)"
    using Cons.prems by simp
  have step: "quantile_cells da q (c # cells) results
                = quantile_cells da q cells (results(c \<mapsto> f c))"
    by (simp only: quantile_cells.simps s sum.case)
  have e: "(\<lambda>k. if k \<in> set cells then Some (f k) else (results(c \<mapsto> f c)) k)
          = (\<lambda>k. if k \<in> set (c # cells) then Some (f k) else results k)"
    by (rule ext) simp
  show ?case
    by (simp only: step Cons.IH [OF rest] e)
qed

lemma quantile_cells_missing:
  assumes "coord da ''lat'' = Some (Nums lats)" and "coord da ''lon'' = Some (Nums lons)"
    and "coord da ''time'' = Some tax" and "\<forall>x \<in> set q. 0 \<le> x \<and> x \<le> 1"
    and "\<exists>c \<in> set cells. fst c \<notin> set lats \<or> snd c \<notin> set lons"
  shows "\<exists>c \<in> set cells. (fst c \<notin> set lats \<or> snd c \<notin> set lons)
           \<and> quantile_cells da q cells results
               = Inl (KeyError (if fst c \<notin> set lats then fst c else snd c))"
  using assms(5)
proof (induction cells arbitrary: results)
  case Nil
  then show ?case by simp
next
  case (Cons c cells)
  show ?case
  proof (cases "fst c \<notin> set lats \<or> snd c \<notin> set lons")
    case True
    from sel_cell_missing [OF assms(1,2) True] True show ?thesis
      by simp
  next
    case False
    then have "fst c \<in> set lats" "snd c \<in> set lons" by simp_all
    from sel_cell_found [OF assms(1,2) this] obtain i j where
      "xr_sel_cell da (fst c) (snd c)
               = Inr \<lparr>dims = drop_dims [''lat'', ''lon''] (dims da),
                      vals = (\<lambda>ix. vals da (ix(''lat'' := i, ''lon'' := j)))\<rparr>"
      by blast
    then have step: "quantile_cells da q (c # cells) results
            = quantile_cells da q cells (results(c \<mapsto> cell_quantiles da q i j))"
      by (simp only: quantile_cells.simps quantile_of_cell [OF assms(3,4)] sum.case)
    from Cons.prems False have "\<exists>c \<in> set cells. fst c \<notin> set lats \<or> snd c \<notin> set lons"
      by auto
    from Cons.IH [OF this, of "results(c \<mapsto> cell_quantiles da q i j)"] obtain c' where
      c': "c' \<in> set cells" "fst c' \<notin> set lats \<or> snd c' \<notin> set lons"
      "quantile_cells da q cells (results(c \<mapsto> cell_quantiles da q i j))
         = Inl (KeyError (if fst c' \<notin> set lats then fst c' else snd c'))"
      by blast
    from c'(3) have "quantile_cells da q (c # cells) results
         = Inl (KeyError (if fst c' \<notin> set lats then fst c' else snd c'))"
      by (simp only: step)
    moreover from c'(1) have "c' \<in> set (c # cells)" by simp
    ultimately show ?thesis
      using c'(2) by blast
  qed
qed

lemma valid_map_Some: "valid (map (\<lambda>t. Some (f t)) xs) = map f xs"
  by (induction xs) simp_all

lemma sorted_ramp: "sorted (map (\<lambda>t. real (t + 1)) [0..<n])"
proof -
  have "sorted_wrt (\<lambda>i j. real (i + 1) \<le> real (j + 1)) [0..<n]"
    by (rule sorted_wrt_mono_rel [of _ "(<)"]) simp_all
  then show ?thesis
    by (simp only: sorted_map)
qed

lemma nanquantile_ramp:
  "nanquantile (map (\<lambda>t. Some (real (t + 1))) [0..<100]) (1 / 10) = Some (109 / 10)"
proof -
  let ?vs = "map (\<lambda>t. real (t + 1)) [0..<100]"
  have s: "sort ?vs = ?vs"
    by (rule sorted_sort_id) (rule sorted_ramp)
  have f: "nat \<lfloor>(1 / 10 :: real) * real (length ?vs - 1)\<rfloor> = 9"
    by simp
  have "lerp_quantile ?vs (1 / 10) = 109 / 10"
    unfolding lerp_quantile_def Let_def f by simp
  then show ?thesis
    unfolding nanquantile_def valid_map_Some s Let_def by simp
qed

lemma ramp_series: "cell_series ramp i j ix = map (\<lambda>t. Some (real (t + 1))) [0..<100]"
  by (simp add: cell_series_def ramp_def dim_size_def coord_def)

lemma mset_valid:
  "image_mset Some (mset (valid xs)) = filter_mset (\<lambda>c. c \<noteq> None) (mset xs)"
  by (induction xs rule: valid.induct) simp_all

lemma lerp_quantile_interpolate:
  assumes "0 \<le> q" and "q \<le> 1" and "vs \<noteq> []"
  shows "lerp_quantile vs q = interpolate vs (q * real (length vs - 1))"
proof -
  define h where "h = q * real (length vs - 1)"
  have h0: "0 \<le> h"
    unfolding h_def using assms(1) by simp
  have h1: "h \<le> real (length vs - 1)"
    unfolding h_def using assms(1,2) by (simp add: mult_left_le_one_le)
  have f0: "0 \<le> \<lfloor>h\<rfloor>"
    using h0 by simp
  then have lo: "real (nat \<lfloor>h\<rfloor>) = of_int \<lfloor>h\<rfloor>"
    by simp
  show ?thesis
  proof (cases "of_int \<lfloor>h\<rfloor> = h")
    case True
    then have z: "h - of_int \<lfloor>h\<rfloor> = 0"
      by linarith
    show ?thesis
      unfolding lerp_quantile_def interpolate_def Let_def h_def [symmetric] lo z by simp
  next
    case False
    then have c: "\<lceil>h\<rceil> = \<lfloor>h\<rfloor> + 1"
      by (simp add: ceiling_altdef)
    from False have "of_int \<lfloor>h\<rfloor> < h"
      by (simp add: less_le)
    with h1 have "of_int \<lfloor>h\<rfloor> < (of_int (int (length vs - 1)) :: real)"
      by simp
    then have "\<lfloor>h\<rfloor> < int (length vs - 1)"
      by (simp only: of_int_less_iff)
    with f0 have "nat \<lfloor>h\<rfloor> + 1 \<le> length vs - 1"
      by linarith
    then have m: "min (nat \<lfloor>h\<rfloor> + 1) (length vs - 1) = nat \<lfloor>h\<rfloor> + 1"
      by (rule min_absorb1)
    from f0 c have n: "nat \<lceil>h\<rceil> = nat \<lfloor>h\<rfloor> + 1"
      by linarith
    show ?thesis
      unfolding lerp_quantile_def interpolate_def Let_def h_def [symmetric] m n lo by simp
  qed
qed

lemma nanquantile_is_quantile:
  assumes "0 \<le> q" and "q \<le> 1"
  shows "is_quantile xs q (nanquantile xs q)"
proof -
  let ?vs = "sort (valid xs)"
  have "sorted ?vs"
    by simp
  moreover have "mset (map Some ?vs) = filter_mset (\<lambda>c. c \<noteq> None) (mset xs)"
    by (simp only: mset_map mset_sort mset_valid)
  moreover have "nanquantile xs q
        = (if ?vs = [] then None else Some (interpolate ?vs (q * real (length ?vs - 1))))"
    using lerp_quantile_interpolate [OF assms, of ?vs]
    by (simp add: nanquantile_def Let_def)
  ultimately show ?thesis
    unfolding is_quantile_def by blast
qed

lemma is_quantile_unique:
  assumes "is_quantile series q r" and "sorted vs"
    and "mset (map Some vs) = filter_mset (\<lambda>c. c \<noteq> None) (mset series)"
  shows "r = (if vs = [] then None else Some (interpolate vs (q * real (length vs - 1))))"
proof -
  from assms(1) obtain ws where
    ws: "sorted ws" "mset (map Some ws) = filter_mset (\<lambda>c. c \<noteq> None) (mset series)"
    "r = (if ws = [] then None else Some (interpolate ws (q * real (length ws - 1))))"
    unfolding is_quantile_def by blast
  from ws(2) assms(3) have "image_mset the (image_mset Some (mset ws))
                              = image_mset the (image_mset Some (mset vs))"
    by simp
  then have "mset ws = mset vs"
    by (simp add: multiset.map_comp comp_def)
  from properties_for_sort [OF this ws(1)] have "sort vs = ws" .
  with assms(2) have "ws = vs"
    by (simp add: sorted_sort_id)
  with ws(3) show ?thesis
    by simp
qed

lemma all_present: "filter_mset (\<lambda>c. c \<noteq> None) (mset (map Some vs)) = mset (map Some vs)"
  by (induction vs) simp_all

section \<open>Properties of the spatial reduction\<close>

text \<open>
  C2. For every field and every weighting string other than "GMST", the spatial collapse
  raises a ValueError whose message names the rejected weighting string; it never
  returns a value computed with some default scheme.
\<close>

theorem collapse_across_space_unknown_weighting:
  "weighting \<noteq> ''GMST'' \<Longrightarrow>
     xr_collapse_across_space da weighting
       = Inl (ValueError (weighting @ '' is an unknown weighting scheme''))"
  by (simp add: xr_collapse_across_space_def)

theorem collapse_across_space_unknown_weighting_witness:
  "''area'' \<noteq> ''GMST'' \<and>
   xr_collapse_across_space \<lparr>dims = [], vals = (\<lambda>ix. Some 1)\<rparr> ''area''
     = Inl (ValueError ''area is an unknown weighting scheme'')"
  using collapse_across_space_unknown_weighting
          [of "''area''" "\<lparr>dims = [], vals = (\<lambda>ix. Some 1)\<rparr>"]
  by simp



text \<open>
  C10. The division by the sum of the masked weights is not guarded: where every spatial
  cell of the field is missing, no cell is present, the sum of the weights of the present
  cells is 0, and the spatial collapse returns not-a-number (zero by zero) at that index;
  it does not raise. A grid whose latitudes all have the weight zero is no further case
  of the program: the floating-point cosine of no latitude is zero (at the poles it is
  about \<open>6e-17\<close>).
\<close>

theorem collapse_across_space_all_missing:
  assumes "coord da ''lat'' = Some (Nums lats)" and "coord da ''lon'' = Some lons"
    and "\<forall>i j. vals da (ix(''lat'' := i, ''lon'' := j)) = None"
  shows "\<exists>out. xr_collapse_across_space da ''GMST'' = Inr out
           \<and> present da ix = {}
           \<and> (\<Sum>(i, j) \<in> present da ix. gmst_weight (lats ! i)) = 0
           \<and> vals out ix = NaN"
proof -
  have p: "present da ix = {}"
    using assms(3) by (auto simp: present_def)
  have "weighted_mean da lats ix = NaN"
    unfolding weighted_mean_def p by (simp add: np_div_def)
  with p show ?thesis
    using collapse_across_space_gmst_eq [OF assms(1,2)] by simp
qed

theorem collapse_across_space_all_missing_witness:
  "coord all_missing_field ''lat'' = Some (Nums [0, 45])
   \<and> coord all_missing_field ''lon'' = Some (Nums [10])
   \<and> (\<exists>out. xr_collapse_across_space all_missing_field ''GMST'' = Inr out
         \<and> dims out = [] \<and> vals out (\<lambda>d. 0) = NaN)"
proof -
  have a: "coord all_missing_field ''lat'' = Some (Nums [0, 45])"
          "coord all_missing_field ''lon'' = Some (Nums [10])"
    by (simp_all add: coord_def all_missing_field_def)
  have m: "\<forall>i j. vals all_missing_field ((\<lambda>d. 0)(''lat'' := i, ''lon'' := j)) = None"
    by (simp add: all_missing_field_def)
  from collapse_across_space_all_missing [OF a m] obtain out where
    o: "xr_collapse_across_space all_missing_field ''GMST'' = Inr out" "vals out (\<lambda>d. 0) = NaN"
    by blast
  from o(1) have "dims out = []"
    using collapse_across_space_gmst_eq [OF a]
    by (auto simp: drop_dims_def all_missing_field_def)
  with a o show ?thesis
    by blast
qed

section \<open>Properties of the temporal reduction\<close>

text \<open>
  C3. For every field with a non-empty time dimension, the yearly mean succeeds and puts
  a year dimension in the place of the time dimension. The labels of the year dimension
  are the years of the timestamps, each once, in ascending order, and the entry for a
  year is the mean of the cells whose timestamp falls in that year: the sum of their
  values divided by their number, missing cells left out. The witness has the series
  \<open>1, 2, 3, 4\<close> within one year on a grid of one cell, whose yearly mean is 2.5, and a
  series over two years with the yearly means 1.5 and 4.
\<close>

theorem average_across_days_of_year_by_year:
  assumes "coord da ''time'' = Some (Stamps ts)" and "ts \<noteq> []"
  shows "\<exists>out ys. xr_average_across_days_of_year da = Inr out
           \<and> dims out = replace_dim ''time'' (''year'', Ints ys) (dims da)
           \<and> sorted ys \<and> distinct ys \<and> set ys = fst ` set ts
           \<and> (\<forall>ix. ix ''year'' < length ys \<longrightarrow>
                 vals out ix
                   = mean_over {t. t < length ts \<and> fst (ts ! t) = ys ! ix ''year''}
                       (\<lambda>t. vals da (ix(''time'' := t))))"
proof -
  let ?out = "groupby_reduce nanmean da (groupby_year ts)"
  have "xr_average_across_days_of_year da = Inr ?out"
    using assms by (simp add: xr_average_across_days_of_year_def)
  moreover have "dims ?out = replace_dim ''time'' (''year'', Ints (years_of ts)) (dims da)"
    by (rule dims_groupby_reduce)
  moreover have "vals ?out ix
      = mean_over {t. t < length ts \<and> fst (ts ! t) = years_of ts ! ix ''year''}
          (\<lambda>t. vals da (ix(''time'' := t)))"
    if "ix ''year'' < length (years_of ts)" for ix
    using that
    by (simp add: vals_groupby_reduce [where k = "ix ''year''"] cells_in_year_def
          mean_over_upt year_of_def)
  ultimately show ?thesis
    using years_of_fst [of ts] by blast
qed

lemma years_of_examples:
  "years_of four_days_axis = [1995]" "years_of two_years_axis = [1995, 1996]"
  by (simp_all add: years_of_def year_of_def four_days_axis_def two_years_axis_def)

theorem average_across_days_of_year_by_year_witness:
  "coord four_days ''time'' = Some (Stamps four_days_axis) \<and> four_days_axis \<noteq> []
   \<and> (\<exists>out. xr_average_across_days_of_year four_days = Inr out
         \<and> dims out = [(''year'', Ints [1995]), (''lat'', Nums [1]), (''lon'', Nums [1])]
         \<and> vals out (\<lambda>d. 0) = Some 2.5)
   \<and> coord two_years ''time'' = Some (Stamps two_years_axis) \<and> two_years_axis \<noteq> []
   \<and> (\<exists>out. xr_average_across_days_of_year two_years = Inr out
         \<and> dims out = [(''year'', Ints [1995, 1996]), (''lat'', Nums [1]), (''lon'', Nums [1])]
         \<and> vals out (\<lambda>d. 0) = Some 1.5
         \<and> vals out ((\<lambda>d. 0)(''year'' := 1)) = Some 4)"
proof -
  have t1: "coord four_days ''time'' = Some (Stamps four_days_axis)"
    and t2: "coord two_years ''time'' = Some (Stamps two_years_axis)"
    by (simp_all add: coord_def four_days_def two_years_def)
  have ne: "four_days_axis \<noteq> []" "two_years_axis \<noteq> []"
    by (simp_all add: four_days_axis_def two_years_axis_def)
  have d1: "replace_dim ''time'' (''year'', Ints [1995]) (dims four_days)
             = [(''year'', Ints [1995]), (''lat'', Nums [1]), (''lon'', Nums [1])]"
    and d2: "replace_dim ''time'' (''year'', Ints [1995, 1996]) (dims two_years)
             = [(''year'', Ints [1995, 1996]), (''lat'', Nums [1]), (''lon'', Nums [1])]"
    by (simp_all add: replace_dim_def four_days_def two_years_def)
  have m1: "mean_over {t. t < length four_days_axis \<and> fst (four_days_axis ! t) = 1995}
              (\<lambda>t. vals four_days (ix(''time'' := t))) = Some 2.5" for ix
    unfolding mean_over_upt
    by (simp add: four_days_def four_days_axis_def upt_rec nanmean_def)
  have m2: "mean_over {t. t < length two_years_axis \<and> fst (two_years_axis ! t) = 1995}
              (\<lambda>t. vals two_years (ix(''time'' := t))) = Some 1.5" for ix
    unfolding mean_over_upt
    by (simp add: two_years_def two_years_axis_def upt_rec nanmean_def)
  have m3: "mean_over {t. t < length two_years_axis \<and> fst (two_years_axis ! t) = 1996}
              (\<lambda>t. vals two_years (ix(''time'' := t))) = Some 4" for ix
    unfolding mean_over_upt
    by (simp add: two_years_def two_years_axis_def upt_rec nanmean_def)
  have 1: "\<exists>out. xr_average_across_days_of_year four_days = Inr out
         \<and> dims out = [(''year'', Ints [1995]), (''lat'', Nums [1]), (''lon'', Nums [1])]
         \<and> vals out (\<lambda>d. 0) = Some 2.5"
  proof -
    from average_across_days_of_year_by_year [OF t1 ne(1)] obtain out ys where
      o: "xr_average_across_days_of_year four_days = Inr out"
      "dims out = replace_dim ''time'' (''year'', Ints ys) (dims four_days)"
      "sorted ys" "distinct ys" "set ys = fst ` set four_days_axis"
      "\<forall>ix. ix ''year'' < length ys \<longrightarrow>
         vals out ix = mean_over {t. t < length four_days_axis \<and> fst (four_days_axis ! t) = ys ! ix ''year''}
                         (\<lambda>t. vals four_days (ix(''time'' := t)))"
      by blast
    have ys: "ys = [1995]"
      using sorted_distinct_years [OF o(3,4,5)] by (simp add: years_of_examples)
    from o(6) have "vals out (\<lambda>d. 0) = Some 2.5"
      unfolding ys by (simp add: m1)
    with o(1,2) show ?thesis
      unfolding ys d1 by blast
  qed
  have 2: "\<exists>out. xr_average_across_days_of_year two_years = Inr out
         \<and> dims out = [(''year'', Ints [1995, 1996]), (''lat'', Nums [1]), (''lon'', Nums [1])]
         \<and> vals out (\<lambda>d. 0) = Some 1.5
         \<and> vals out ((\<lambda>d. 0)(''year'' := 1)) = Some 4"
  proof -
    from average_across_days_of_year_by_year [OF t2 ne(2)] obtain out ys where
      o: "xr_average_across_days_of_year two_years = Inr out"
      "dims out = replace_dim ''time'' (''year'', Ints ys) (dims two_years)"
      "sorted ys" "distinct ys" "set ys = fst ` set two_years_axis"
      "\<forall>ix. ix ''year'' < length ys \<longrightarrow>
         vals out ix = mean_over {t. t < length two_years_axis \<and> fst (two_years_axis ! t) = ys ! ix ''year''}
                         (\<lambda>t. vals two_years (ix(''time'' := t)))"
      by blast
    have ys: "ys = [1995, 1996]"
      using sorted_distinct_years [OF o(3,4,5)] by (simp add: years_of_examples)
    from o(6) have "vals out (\<lambda>d. 0) = Some 1.5"
      unfolding ys by (simp add: m2)
    moreover from o(6) have "vals out ((\<lambda>d. 0)(''year'' := 1)) = Some 4"
      unfolding ys by (simp add: m3)
    ultimately show ?thesis
      using o(1,2) unfolding ys d2 by blast
  qed
  show ?thesis
    by (intro conjI) (fact t1 t2 ne 1 2)+
qed

text \<open>
  C9, as amended. For every series whose cells are each 1 or missing, an entry of the
  yearly mean is 1 where the year has a cell that is not missing, and missing where all
  cells of the year are missing.
\<close>

theorem average_of_ones:
  assumes "coord da ''time'' = Some (Stamps ts)" and "ts \<noteq> []"
    and "\<forall>t. vals da (ix(''time'' := t)) \<in> {None, Some 1}"
    and "ix ''year'' < length (years_of ts)"
  shows "\<exists>out. xr_average_across_days_of_year da = Inr out
           \<and> vals out ix
               = (if \<exists>c \<in> set (cells_in_year da ts (years_of ts ! ix ''year'') ix). c \<noteq> None
                  then Some 1 else None)"
proof -
  have "set (cells_in_year da ts (years_of ts ! ix ''year'') ix) \<subseteq> {None, Some 1}"
  proof
    fix c
    assume "c \<in> set (cells_in_year da ts (years_of ts ! ix ''year'') ix)"
    then obtain t where "c = vals da (ix(''time'' := t))"
      by (auto simp: cells_in_year_def)
    with assms(3) show "c \<in> {None, Some 1}"
      by simp
  qed
  from nanmean_ones [OF this] show ?thesis
    using assms(1,2,4)
    by (simp add: xr_average_across_days_of_year_def vals_groupby_reduce)
qed

lemma gappy_facts:
  "coord gappy_ones ''time'' = Some (Stamps gappy_axis)" "gappy_axis \<noteq> []"
  "years_of gappy_axis = [1995, 1996]"
  "\<forall>t. vals gappy_ones (ix(''time'' := t)) \<in> {None, Some 1}"
  by (simp_all add: coord_def gappy_ones_def gappy_axis_def years_of_def year_of_def)

lemma gappy_cells:
  "cells_in_year gappy_ones gappy_axis 1995 ix = [Some 1, Some 1]"
  "cells_in_year gappy_ones gappy_axis 1996 ix = [None]"
  by (simp_all add: cells_in_year_def gappy_ones_def gappy_axis_def year_of_def upt_rec)

theorem average_of_ones_witness:
  "coord gappy_ones ''time'' = Some (Stamps gappy_axis) \<and> gappy_axis \<noteq> []
   \<and> (\<forall>t. vals gappy_ones ((\<lambda>d. 0)(''time'' := t)) \<in> {None, Some 1})
   \<and> (0 :: nat) < length (years_of gappy_axis)
   \<and> (\<exists>out. xr_average_across_days_of_year gappy_ones = Inr out \<and> vals out (\<lambda>d. 0) = Some 1)"
  using average_of_ones [OF gappy_facts(1,2,4), of "\<lambda>d. 0"] gappy_facts
  by (simp add: gappy_cells)

theorem average_of_ones_counterexample:
  "(\<forall>ix. vals gappy_ones ix \<in> {None, Some 1})
   \<and> (\<exists>out. xr_average_across_days_of_year gappy_ones = Inr out
         \<and> vals out ((\<lambda>d. 0)(''year'' := 1)) = None)"
proof -
  have "vals (groupby_reduce nanmean gappy_ones (groupby_year gappy_axis)) ((\<lambda>d. 0)(''year'' := 1))
          = None"
    by (subst vals_groupby_reduce [where k = 1])
       (simp_all add: gappy_facts gappy_cells nanmean_def)
  then show ?thesis
    using gappy_facts(1,2)
    by (simp add: xr_average_across_days_of_year_def) (simp add: gappy_ones_def)
qed

text \<open>
  C7. For every field with a non-empty time dimension (and no year dimension of its own)
  and every threshold, the yearly count succeeds; its dimension over the years is named
  \<open>time\<close> and labelled by the years of the timestamps, each once and in ascending
  order, and the entry for a year is the number of timestamps of that year whose cell is
  strictly above the threshold. A cell equal to the threshold and a missing cell are not
  counted. The witness counts over two years: none of the values \<open>1, 2\<close> of 1995 and
  two of the values 3, missing, 5 of 1996 are above 2.
\<close>

theorem count_across_days_of_year_strict:
  assumes "coord da ''time'' = Some (Stamps ts)" and "ts \<noteq> []"
    and "''year'' \<notin> fst ` set (dims da)"
  shows "\<exists>out ys. xr_count_across_days_of_year da x = Inr out
           \<and> dims out = replace_dim ''time'' (''time'', Ints ys) (dims da)
           \<and> sorted ys \<and> distinct ys \<and> set ys = fst ` set ts
           \<and> (\<forall>ix. ix ''time'' < length ys \<longrightarrow>
                 vals out ix
                   = card (exceedances da ts x (ys ! ix ''time'') (ix(''year'' := ix ''time''))))"
proof -
  let ?w = "xr_where_nan da (xr_gt da x)"
  let ?out = "xr_rename ''year'' ''time'' (groupby_reduce count_valid ?w (groupby_year ts))"
  have res: "xr_count_across_days_of_year da x = Inr ?out"
    using assms(1,2) by (simp add: xr_count_across_days_of_year_def Let_def)
  have d: "dims ?out = replace_dim ''time'' (''time'', Ints (years_of ts)) (dims da)"
    using dims_rename_year [OF assms(3)]
    by (simp add: xr_rename_def dims_groupby_reduce xr_where_nan_def)
  have v: "vals ?out ix
             = card (exceedances da ts x (years_of ts ! ix ''time'') (ix(''year'' := ix ''time'')))"
    if k: "ix ''time'' < length (years_of ts)" for ix
  proof -
    let ?ix = "ix(''year'' := ix ''time'')"
    have "vals ?out ix = count_valid (cells_in_year ?w ts (years_of ts ! ix ''time'') ?ix)"
      using k by (simp add: xr_rename_def vals_groupby_reduce [where k = "ix ''time''"])
    also have "\<dots> = length (filter (\<lambda>t. fst (ts ! t) = years_of ts ! ix ''time''
                           \<and> (\<exists>v. vals da (?ix(''time'' := t)) = Some v \<and> x < v)) [0..<length ts])"
      unfolding count_valid_filter cells_in_year_def length_map filter_map comp_def filter_filter
      by (rule arg_cong [where f = length], rule filter_cong)
         (auto simp: xr_where_nan_def xr_gt_def year_of_def split: option.splits)
    also have "\<dots> = card (exceedances da ts x (years_of ts ! ix ''time'') ?ix)"
      unfolding length_filter_upt_card exceedances_def by simp
    finally show ?thesis .
  qed
  from res d v show ?thesis
    using years_of_fst [of ts] by blast
qed

theorem count_across_days_of_year_strict_witness:
  "coord two_years ''time'' = Some (Stamps two_years_axis) \<and> two_years_axis \<noteq> []
   \<and> ''year'' \<notin> fst ` set (dims two_years)
   \<and> (\<exists>out. xr_count_across_days_of_year two_years 2 = Inr out
         \<and> dims out = [(''time'', Ints [1995, 1996]), (''lat'', Nums [1]), (''lon'', Nums [1])]
         \<and> vals out (\<lambda>d. 0) = 0
         \<and> vals out ((\<lambda>d. 0)(''time'' := 1)) = 2)"
proof -
  have t: "coord two_years ''time'' = Some (Stamps two_years_axis)"
    by (simp add: coord_def two_years_def)
  have ne: "two_years_axis \<noteq> []"
    by (simp add: two_years_axis_def)
  have ny: "''year'' \<notin> fst ` set (dims two_years)"
    by (simp add: two_years_def)
  have e1: "exceedances two_years two_years_axis 2 1995 ix = {}" for ix
    unfolding exceedances_filter
    by (simp add: two_years_def two_years_axis_def upt_rec)
  have e2: "card (exceedances two_years two_years_axis 2 1996 ix) = 2" for ix
    unfolding exceedances_filter
    by (simp add: two_years_def two_years_axis_def upt_rec)
  have d: "replace_dim ''time'' (''time'', Ints [1995, 1996]) (dims two_years)
             = [(''time'', Ints [1995, 1996]), (''lat'', Nums [1]), (''lon'', Nums [1])]"
    by (simp add: replace_dim_def two_years_def)
  from count_across_days_of_year_strict [OF t ne ny, of 2] obtain out ys where
    o: "xr_count_across_days_of_year two_years 2 = Inr out"
    "dims out = replace_dim ''time'' (''time'', Ints ys) (dims two_years)"
    "sorted ys" "distinct ys" "set ys = fst ` set two_years_axis"
    "\<forall>ix. ix ''time'' < length ys \<longrightarrow>
        vals out ix = card (exceedances two_years two_years_axis 2
                              (ys ! ix ''time'') (ix(''year'' := ix ''time'')))"
    by blast
  have ys: "ys = [1995, 1996]"
    using sorted_distinct_years [OF o(3,4,5)] by (simp add: years_of_examples)
  from o(6) have "vals out (\<lambda>d. 0) = 0"
    unfolding ys by (simp add: e1)
  moreover from o(6) have "vals out ((\<lambda>d. 0)(''time'' := 1)) = 2"
    unfolding ys by (simp add: e2)
  ultimately show ?thesis
    using o(1,2) t ne ny unfolding ys d by blast
qed










section \<open>Properties of the composite reduction\<close>

text \<open>
  C4. The collapse to a global time series is the yearly mean followed by the spatial
  collapse with weighting "GMST", and nothing else: an error of the first step is the
  error of the whole. For a field whose dimensions are a non-empty time dimension, a
  latitude dimension and a longitude dimension, it succeeds and its result has the single
  dimension \<open>year\<close>.
\<close>

theorem collapse_to_global_time_series_composition:
  "xr_collapse_to_global_time_series da
     = (case xr_average_across_days_of_year da of
          Inl e \<Rightarrow> Inl e
        | Inr yearly \<Rightarrow> xr_collapse_across_space yearly ''GMST'')
   \<and> (coord da ''time'' = Some (Stamps ts) \<and> ts \<noteq> []
        \<and> coord da ''lat'' = Some (Nums lats) \<and> coord da ''lon'' = Some lons
        \<and> distinct (map fst (dims da)) \<and> set (map fst (dims da)) = {''time'', ''lat'', ''lon''}
      \<longrightarrow> (\<exists>out. xr_collapse_to_global_time_series da = Inr out
              \<and> dims out = [(''year'', Ints (years_of ts))]))"
proof (intro conjI impI)
  show "xr_collapse_to_global_time_series da
     = (case xr_average_across_days_of_year da of
          Inl e \<Rightarrow> Inl e
        | Inr yearly \<Rightarrow> xr_collapse_across_space yearly ''GMST'')"
    by (simp add: xr_collapse_to_global_time_series_def)
next
  assume a: "coord da ''time'' = Some (Stamps ts) \<and> ts \<noteq> []
        \<and> coord da ''lat'' = Some (Nums lats) \<and> coord da ''lon'' = Some lons
        \<and> distinct (map fst (dims da)) \<and> set (map fst (dims da)) = {''time'', ''lat'', ''lon''}"
  let ?avg = "groupby_reduce nanmean da (groupby_year ts)"
  have avg: "xr_average_across_days_of_year da = Inr ?avg"
    using a by (simp add: xr_average_across_days_of_year_def)
  have d: "dims ?avg = replace_dim ''time'' (''year'', Ints (years_of ts)) (dims da)"
    by (rule dims_groupby_reduce)
  have lat: "coord ?avg ''lat'' = Some (Nums lats)" and lon: "coord ?avg ''lon'' = Some lons"
    using a unfolding coord_def d by (simp_all add: map_of_replace_other)
  have "dims \<lparr>dims = drop_dims [''lat'', ''lon''] (dims ?avg), vals = weighted_mean ?avg lats\<rparr>
          = [(''year'', Ints (years_of ts))]"
    unfolding d using a by (simp add: only_year_left)
  with collapse_across_space_gmst_eq [OF lat lon] avg
  show "\<exists>out. xr_collapse_to_global_time_series da = Inr out
              \<and> dims out = [(''year'', Ints (years_of ts))]"
    by (simp add: xr_collapse_to_global_time_series_def)
qed

lemma global_four_days:
  "\<exists>out. xr_collapse_to_global_time_series four_days = Inr out \<and> vals out (\<lambda>d. 0) = Fin 2.5"
proof -
  let ?avg = "groupby_reduce nanmean four_days (groupby_year four_days_axis)"
  have t: "coord four_days ''time'' = Some (Stamps four_days_axis)" and ne: "four_days_axis \<noteq> []"
    by (simp_all add: coord_def four_days_def four_days_axis_def)
  have avg: "xr_average_across_days_of_year four_days = Inr ?avg"
    using t ne by (simp add: xr_average_across_days_of_year_def)
  have y: "years_of four_days_axis = [1995]"
    by (simp add: years_of_def year_of_def four_days_axis_def)
  have d: "dims ?avg = [(''year'', Ints [1995]), (''lat'', Nums [1]), (''lon'', Nums [1])]"
    unfolding dims_groupby_reduce y by (simp add: replace_dim_def four_days_def)
  have lat: "coord ?avg ''lat'' = Some (Nums [1])" and lon: "coord ?avg ''lon'' = Some (Nums [1])"
    unfolding coord_def d by simp_all
  have sz: "dim_size ?avg ''lat'' = 1" "dim_size ?avg ''lon'' = 1"
    unfolding dim_size_def lat lon by simp_all
  have c: "cells_in_year four_days four_days_axis 1995 ix = [Some 1, Some 2, Some 3, Some 4]" for ix
    by (simp add: cells_in_year_def year_of_def four_days_def four_days_axis_def upt_rec)
  have v: "vals ?avg (ix(''lat'' := i, ''lon'' := j)) = Some 2.5" if "ix ''year'' = 0" for ix i j
  proof -
    have "vals ?avg (ix(''lat'' := i, ''lon'' := j))
            = nanmean (cells_in_year four_days four_days_axis (years_of four_days_axis ! 0)
                         (ix(''lat'' := i, ''lon'' := j)))"
      by (rule vals_groupby_reduce) (simp_all add: y that)
    then show ?thesis
      by (simp add: y c nanmean_def)
  qed
  have p: "present ?avg (\<lambda>d. 0) = {(0, 0)}"
    unfolding present_def sz by (auto simp: v)
  have w: "0 < gmst_weight 1"
    by (rule cos_deg_pos) simp_all
  have "weighted_mean ?avg [1] (\<lambda>d. 0) = Fin 2.5"
    unfolding weighted_mean_def p using w by (simp add: v np_div_def)
  with collapse_across_space_gmst_eq [OF lat lon] avg show ?thesis
    by (simp add: xr_collapse_to_global_time_series_def)
qed

theorem collapse_to_global_time_series_composition_witness:
  "coord four_days ''time'' = Some (Stamps four_days_axis) \<and> four_days_axis \<noteq> []
   \<and> coord four_days ''lat'' = Some (Nums [1]) \<and> coord four_days ''lon'' = Some (Nums [1])
   \<and> distinct (map fst (dims four_days))
   \<and> set (map fst (dims four_days)) = {''time'', ''lat'', ''lon''}
   \<and> (\<exists>out. xr_collapse_to_global_time_series four_days = Inr out
         \<and> dims out = [(''year'', Ints [1995])] \<and> vals out (\<lambda>d. 0) = Fin 2.5)"
proof -
  have h: "coord four_days ''time'' = Some (Stamps four_days_axis) \<and> four_days_axis \<noteq> []
   \<and> coord four_days ''lat'' = Some (Nums [1]) \<and> coord four_days ''lon'' = Some (Nums [1])
   \<and> distinct (map fst (dims four_days))
   \<and> set (map fst (dims four_days)) = {''time'', ''lat'', ''lon''}"
    by (auto simp: coord_def four_days_def four_days_axis_def)
  have y: "years_of four_days_axis = [1995]"
    by (simp add: years_of_def year_of_def four_days_axis_def)
  from collapse_to_global_time_series_composition
         [of four_days four_days_axis "[1]" "Nums [1]"] h
  obtain out where o: "xr_collapse_to_global_time_series four_days = Inr out"
    "dims out = [(''year'', Ints (years_of four_days_axis))]"
    by blast
  from global_four_days o(1) have "vals out (\<lambda>d. 0) = Fin 2.5"
    by auto
  with o h show ?thesis
    unfolding y by blast
qed

section \<open>Properties of the quantiles of single cells\<close>

lemma quantile_cells_exact:
  assumes "coord da ''lat'' = Some (Nums lats)" and "coord da ''lon'' = Some (Nums lons)"
    and "coord da ''time'' = Some tax" and "\<forall>x \<in> set q. 0 \<le> x \<and> x \<le> 1"
  shows "((\<forall>c \<in> set cells. fst c \<in> set lats \<and> snd c \<in> set lons) \<longrightarrow>
            (\<exists>m. xr_quantiles_across_time_by_cell da q cells = Inr m \<and> dom m = set cells
               \<and> (\<forall>c \<in> set cells. \<exists>i j. i < length lats \<and> lats ! i = fst c
                      \<and> j < length lons \<and> lons ! j = snd c
                      \<and> m c = Some (cell_quantiles da q i j))))
       \<and> ((\<exists>c \<in> set cells. fst c \<notin> set lats \<or> snd c \<notin> set lons) \<longrightarrow>
            (\<exists>c \<in> set cells. (fst c \<notin> set lats \<or> snd c \<notin> set lons)
               \<and> xr_quantiles_across_time_by_cell da q cells
                   = Inl (KeyError (if fst c \<notin> set lats then fst c else snd c))))"
proof (intro conjI impI)
  assume all: "\<forall>c \<in> set cells. fst c \<in> set lats \<and> snd c \<in> set lons"
  have ex: "\<exists>i j. i < length lats \<and> lats ! i = fst c \<and> j < length lons \<and> lons ! j = snd c
              \<and> xr_sel_cell da (fst c) (snd c)
                  = Inr \<lparr>dims = drop_dims [''lat'', ''lon''] (dims da),
                         vals = (\<lambda>ix. vals da (ix(''lat'' := i, ''lon'' := j)))\<rparr>"
    if "c \<in> set cells" for c
    using sel_cell_found [OF assms(1,2)] all that by blast
  define pos where "pos = (\<lambda>c. SOME p. fst p < length lats \<and> lats ! fst p = fst c
              \<and> snd p < length lons \<and> lons ! snd p = snd c
              \<and> xr_sel_cell da (fst c) (snd c)
                  = Inr \<lparr>dims = drop_dims [''lat'', ''lon''] (dims da),
                         vals = (\<lambda>ix. vals da (ix(''lat'' := fst p, ''lon'' := snd p)))\<rparr>)"
  have pos: "fst (pos c) < length lats \<and> lats ! fst (pos c) = fst c
              \<and> snd (pos c) < length lons \<and> lons ! snd (pos c) = snd c
              \<and> xr_sel_cell da (fst c) (snd c)
                  = Inr \<lparr>dims = drop_dims [''lat'', ''lon''] (dims da),
                         vals = (\<lambda>ix. vals da (ix(''lat'' := fst (pos c), ''lon'' := snd (pos c))))\<rparr>"
    if "c \<in> set cells" for c
  proof -
    from ex [OF that] obtain i j where
      "fst (i, j) < length lats \<and> lats ! fst (i, j) = fst c
              \<and> snd (i, j) < length lons \<and> lons ! snd (i, j) = snd c
              \<and> xr_sel_cell da (fst c) (snd c)
                  = Inr \<lparr>dims = drop_dims [''lat'', ''lon''] (dims da),
                         vals = (\<lambda>ix. vals da (ix(''lat'' := fst (i, j), ''lon'' := snd (i, j))))\<rparr>"
      by auto
    then show ?thesis
      unfolding pos_def by (rule someI)
  qed
  have "\<forall>c \<in> set cells. \<exists>s. xr_sel_cell da (fst c) (snd c) = Inr s
          \<and> xr_quantile q ''time'' s = Inr (cell_quantiles da q (fst (pos c)) (snd (pos c)))"
    using pos quantile_of_cell [OF assms(3,4)] by simp
  from quantile_cells_ok [OF this, of Map.empty]
  have m: "xr_quantiles_across_time_by_cell da q cells
             = Inr (\<lambda>c. if c \<in> set cells
                        then Some (cell_quantiles da q (fst (pos c)) (snd (pos c))) else None)"
    by (simp add: xr_quantiles_across_time_by_cell_def)
  show "\<exists>m. xr_quantiles_across_time_by_cell da q cells = Inr m \<and> dom m = set cells
               \<and> (\<forall>c \<in> set cells. \<exists>i j. i < length lats \<and> lats ! i = fst c
                      \<and> j < length lons \<and> lons ! j = snd c
                      \<and> m c = Some (cell_quantiles da q i j))"
    unfolding m using pos by (auto simp: dom_def)
next
  assume "\<exists>c \<in> set cells. fst c \<notin> set lats \<or> snd c \<notin> set lons"
  from quantile_cells_missing [OF assms this, of Map.empty]
  show "\<exists>c \<in> set cells. (fst c \<notin> set lats \<or> snd c \<notin> set lons)
               \<and> xr_quantiles_across_time_by_cell da q cells
                   = Inl (KeyError (if fst c \<notin> set lats then fst c else snd c))"
    by (simp add: xr_quantiles_across_time_by_cell_def)
qed

text \<open>
  C8. For every field with numeric latitude and longitude labels and a time dimension,
  every list of quantiles in \<open>[0, 1]\<close> and every list of coordinate pairs: when every
  pair names a latitude label and a longitude label of the field, the result is a
  dictionary whose keys are the pairs; each pair is bound to an array with the dimension
  \<open>quantile\<close> in place of time, latitude and longitude, whose cell at a requested
  quantile is that quantile of the time series of the cell with exactly these labels.
  When some coordinate is not among the labels, the call fails with the KeyError of such
  a coordinate, and no other cell stands in for it.
\<close>

theorem quantiles_across_time_by_exact_cell:
  assumes "coord da ''lat'' = Some (Nums lats)" and "coord da ''lon'' = Some (Nums lons)"
    and "coord da ''time'' = Some tax" and "\<forall>x \<in> set q. 0 \<le> x \<and> x \<le> 1"
  shows "((\<forall>c \<in> set cells. fst c \<in> set lats \<and> snd c \<in> set lons) \<longrightarrow>
            (\<exists>m. xr_quantiles_across_time_by_cell da q cells = Inr m \<and> dom m = set cells
               \<and> (\<forall>c \<in> set cells. \<exists>i j r. i < length lats \<and> lats ! i = fst c
                      \<and> j < length lons \<and> lons ! j = snd c
                      \<and> m c = Some r
                      \<and> dims r = (''quantile'', Nums q)
                                   # drop_dims [''time''] (drop_dims [''lat'', ''lon''] (dims da))
                      \<and> (\<forall>ix. ix ''quantile'' < length q \<longrightarrow>
                            is_quantile
                              (map (\<lambda>t. vals da (ix(''time'' := t, ''lat'' := i, ''lon'' := j)))
                                 [0..<axis_size tax])
                              (q ! ix ''quantile'') (vals r ix)))))
       \<and> ((\<exists>c \<in> set cells. fst c \<notin> set lats \<or> snd c \<notin> set lons) \<longrightarrow>
            (\<exists>c \<in> set cells. (fst c \<notin> set lats \<or> snd c \<notin> set lons)
               \<and> xr_quantiles_across_time_by_cell da q cells
                   = Inl (KeyError (if fst c \<notin> set lats then fst c else snd c))))"
proof -
  have n: "dim_size da ''time'' = axis_size tax"
    using assms(3) by (simp add: dim_size_def)
  have v: "is_quantile
             (map (\<lambda>t. vals da (ix(''time'' := t, ''lat'' := i, ''lon'' := j))) [0..<axis_size tax])
             (q ! ix ''quantile'') (vals (cell_quantiles da q i j) ix)"
    if "ix ''quantile'' < length q" for ix i j
  proof -
    from that have "q ! ix ''quantile'' \<in> set q"
      by simp
    with assms(4) have "0 \<le> q ! ix ''quantile''" "q ! ix ''quantile'' \<le> 1"
      by blast+
    from nanquantile_is_quantile [OF this] show ?thesis
      by (simp add: cell_quantiles_def cell_series_def n)
  qed
  have d: "dims (cell_quantiles da q i j)
             = (''quantile'', Nums q) # drop_dims [''time''] (drop_dims [''lat'', ''lon''] (dims da))"
    for i j
    by (simp add: cell_quantiles_def)
  note e = quantile_cells_exact [OF assms, of cells]
  show ?thesis
  proof (intro conjI impI)
    assume "\<forall>c \<in> set cells. fst c \<in> set lats \<and> snd c \<in> set lons"
    with e obtain m where
      m: "xr_quantiles_across_time_by_cell da q cells = Inr m" "dom m = set cells"
      "\<forall>c \<in> set cells. \<exists>i j. i < length lats \<and> lats ! i = fst c
          \<and> j < length lons \<and> lons ! j = snd c \<and> m c = Some (cell_quantiles da q i j)"
      by blast
    have "\<exists>i j r. i < length lats \<and> lats ! i = fst c \<and> j < length lons \<and> lons ! j = snd c
            \<and> m c = Some r
            \<and> dims r = (''quantile'', Nums q)
                         # drop_dims [''time''] (drop_dims [''lat'', ''lon''] (dims da))
            \<and> (\<forall>ix. ix ''quantile'' < length q \<longrightarrow>
                  is_quantile
                    (map (\<lambda>t. vals da (ix(''time'' := t, ''lat'' := i, ''lon'' := j)))
                       [0..<axis_size tax])
                    (q ! ix ''quantile'') (vals r ix))"
      if "c \<in> set cells" for c
    proof -
      from m(3) that obtain i j where
        "i < length lats" "lats ! i = fst c" "j < length lons" "lons ! j = snd c"
        "m c = Some (cell_quantiles da q i j)"
        by blast
      with d [of i j] v [of _ i j] show ?thesis
        by blast
    qed
    with m(1,2) show "\<exists>m. xr_quantiles_across_time_by_cell da q cells = Inr m \<and> dom m = set cells
               \<and> (\<forall>c \<in> set cells. \<exists>i j r. i < length lats \<and> lats ! i = fst c
                      \<and> j < length lons \<and> lons ! j = snd c
                      \<and> m c = Some r
                      \<and> dims r = (''quantile'', Nums q)
                                   # drop_dims [''time''] (drop_dims [''lat'', ''lon''] (dims da))
                      \<and> (\<forall>ix. ix ''quantile'' < length q \<longrightarrow>
                            is_quantile
                              (map (\<lambda>t. vals da (ix(''time'' := t, ''lat'' := i, ''lon'' := j)))
                                 [0..<axis_size tax])
                              (q ! ix ''quantile'') (vals r ix)))"
      by blast
  next
    assume "\<exists>c \<in> set cells. fst c \<notin> set lats \<or> snd c \<notin> set lons"
    with e show "\<exists>c \<in> set cells. (fst c \<notin> set lats \<or> snd c \<notin> set lons)
               \<and> xr_quantiles_across_time_by_cell da q cells
                   = Inl (KeyError (if fst c \<notin> set lats then fst c else snd c))"
      by blast
  qed
qed

theorem quantiles_across_time_by_exact_cell_witness:
  "coord two_cells ''lat'' = Some (Nums [10, 20]) \<and> coord two_cells ''lon'' = Some (Nums [5])
   \<and> coord two_cells ''time'' = Some (Stamps four_days_axis)
   \<and> (\<exists>m. xr_quantiles_across_time_by_cell two_cells [1 / 2, 1] [(10, 5), (20, 5)] = Inr m
         \<and> dom m = {(10, 5), (20, 5)}
         \<and> (\<exists>r. m (10, 5) = Some r \<and> dims r = [(''quantile'', Nums [1 / 2, 1])]
               \<and> vals r (\<lambda>d. 0) = Some 2 \<and> vals r ((\<lambda>d. 0)(''quantile'' := 1)) = Some 3)
         \<and> (\<exists>r. m (20, 5) = Some r \<and> dims r = [(''quantile'', Nums [1 / 2, 1])]
               \<and> vals r (\<lambda>d. 0) = Some 25 \<and> vals r ((\<lambda>d. 0)(''quantile'' := 1)) = Some 40))
   \<and> xr_quantiles_across_time_by_cell two_cells [1 / 2, 1] [(10, 5), (15, 5)]
       = Inl (KeyError 15)
   \<and> (\<exists>m. xr_quantiles_across_time_by_cell ramp [1 / 10, 2 / 10] [(- 90, - 180), (90, 180)] = Inr m
         \<and> (\<exists>r. m (- 90, - 180) = Some r \<and> vals r (\<lambda>d. 0) = Some (109 / 10))
         \<and> (\<exists>r. m (90, 180) = Some r \<and> vals r (\<lambda>d. 0) = Some (109 / 10)))"
proof -
  let ?q = "[1 / 2, 1] :: real list"
  let ?tax = "Stamps four_days_axis"
  let ?cells = "[(10, 5), (20, 5)] :: (real \<times> real) list"
  let ?d = "[(''quantile'', Nums ?q)]"
  have lat: "coord two_cells ''lat'' = Some (Nums [10, 20])"
    and lon: "coord two_cells ''lon'' = Some (Nums [5])"
    and time: "coord two_cells ''time'' = Some ?tax"
    by (simp_all add: coord_def two_cells_def)
  have q: "\<forall>x \<in> set ?q. 0 \<le> x \<and> x \<le> 1"
    by simp
  have d: "(''quantile'', Nums ?q)
             # drop_dims [''time''] (drop_dims [''lat'', ''lon''] (dims two_cells)) = ?d"
    by (simp add: drop_dims_def two_cells_def)
  have s0: "map (\<lambda>t. vals two_cells (ix(''time'' := t, ''lat'' := 0, ''lon'' := j)))
              [0..<axis_size ?tax] = [Some 3, None, Some 1, Some 2]" for ix j
    by (simp add: two_cells_def four_days_axis_def upt_rec)
  have s1: "map (\<lambda>t. vals two_cells (ix(''time'' := t, ''lat'' := 1, ''lon'' := j)))
              [0..<axis_size ?tax] = [Some 10, Some 40, Some 20, Some 30]" for ix j
    by (simp add: two_cells_def four_days_axis_def upt_rec)
  have u0: "r = Some (interpolate [1, 2, 3] (x * 2))"
    if "is_quantile [Some 3, None, Some 1, Some 2] x r" for x r
    using is_quantile_unique [OF that, of "[1, 2, 3]"] by simp
  have u1: "r = Some (interpolate [10, 20, 30, 40] (x * 3))"
    if "is_quantile [Some 10, Some 40, Some 20, Some 30] x r" for x r
    using is_quantile_unique [OF that, of "[10, 20, 30, 40]"] by simp
  have i0: "interpolate [1, 2, 3] (1 / 2 * 2) = 2" "interpolate [1, 2, 3] (1 * 2) = 3"
    by (simp_all add: interpolate_def)
  have i1: "interpolate [10, 20, 30, 40] (1 / 2 * 3) = 25"
    "interpolate [10, 20, 30, 40] (1 * 3) = 40"
    by (simp_all add: interpolate_def)
  note qs = quantiles_across_time_by_exact_cell [OF lat lon time q]
  have good: "\<forall>c \<in> set ?cells. fst c \<in> set [10, 20 :: real] \<and> snd c \<in> set [5 :: real]"
    by simp
  from qs [of ?cells] good obtain m where
    m: "xr_quantiles_across_time_by_cell two_cells ?q ?cells = Inr m"
    "dom m = set ?cells"
    "\<forall>c \<in> set ?cells. \<exists>i j r. i < length [10, 20 :: real] \<and> [10, 20] ! i = fst c
        \<and> j < length [5 :: real] \<and> [5] ! j = snd c
        \<and> m c = Some r
        \<and> dims r = (''quantile'', Nums ?q)
                     # drop_dims [''time''] (drop_dims [''lat'', ''lon''] (dims two_cells))
        \<and> (\<forall>ix. ix ''quantile'' < length ?q \<longrightarrow>
              is_quantile
                (map (\<lambda>t. vals two_cells (ix(''time'' := t, ''lat'' := i, ''lon'' := j)))
                   [0..<axis_size ?tax])
                (?q ! ix ''quantile'') (vals r ix))"
    by blast
  have k1: "\<exists>r. m (10, 5) = Some r \<and> dims r = ?d
               \<and> vals r (\<lambda>d. 0) = Some 2 \<and> vals r ((\<lambda>d. 0)(''quantile'' := 1)) = Some 3"
  proof -
    have "(10, 5) \<in> set ?cells"
      by simp
    from bspec [OF m(3) this] obtain i j r where
      r: "i < length [10, 20 :: real]" "[10, 20 :: real] ! i = fst (10 :: real, 5 :: real)"
      "m (10, 5) = Some r"
      "dims r = (''quantile'', Nums ?q)
                     # drop_dims [''time''] (drop_dims [''lat'', ''lon''] (dims two_cells))"
      "\<forall>ix. ix ''quantile'' < length ?q \<longrightarrow>
              is_quantile
                (map (\<lambda>t. vals two_cells (ix(''time'' := t, ''lat'' := i, ''lon'' := j)))
                   [0..<axis_size ?tax])
                (?q ! ix ''quantile'') (vals r ix)"
      by blast
    from r(1,2) have i: "i = 0"
      by (cases i) simp_all
    have a: "is_quantile [Some 3, None, Some 1, Some 2] (?q ! ix ''quantile'') (vals r ix)"
      if "ix ''quantile'' < length ?q" for ix
      using r(5) that unfolding i s0 by blast
    have "vals r (\<lambda>d. 0) = Some (interpolate [1, 2, 3] (1 / 2 * 2))"
      using u0 [OF a [of "\<lambda>d. 0"]] by simp
    moreover have "vals r ((\<lambda>d. 0)(''quantile'' := 1)) = Some (interpolate [1, 2, 3] (1 * 2))"
      using u0 [OF a [of "(\<lambda>d. 0)(''quantile'' := 1)"]] by simp
    ultimately show ?thesis
      using r(3,4) unfolding d i0 by blast
  qed
  have k2: "\<exists>r. m (20, 5) = Some r \<and> dims r = ?d
               \<and> vals r (\<lambda>d. 0) = Some 25 \<and> vals r ((\<lambda>d. 0)(''quantile'' := 1)) = Some 40"
  proof -
    have "(20, 5) \<in> set ?cells"
      by simp
    from bspec [OF m(3) this] obtain i j r where
      r: "i < length [10, 20 :: real]" "[10, 20 :: real] ! i = fst (20 :: real, 5 :: real)"
      "m (20, 5) = Some r"
      "dims r = (''quantile'', Nums ?q)
                     # drop_dims [''time''] (drop_dims [''lat'', ''lon''] (dims two_cells))"
      "\<forall>ix. ix ''quantile'' < length ?q \<longrightarrow>
              is_quantile
                (map (\<lambda>t. vals two_cells (ix(''time'' := t, ''lat'' := i, ''lon'' := j)))
                   [0..<axis_size ?tax])
                (?q ! ix ''quantile'') (vals r ix)"
      by blast
    from r(1,2) have i: "i = 1"
      by (cases i) simp_all
    have a: "is_quantile [Some 10, Some 40, Some 20, Some 30] (?q ! ix ''quantile'') (vals r ix)"
      if "ix ''quantile'' < length ?q" for ix
      using r(5) that unfolding i s1 by blast
    have "vals r (\<lambda>d. 0) = Some (interpolate [10, 20, 30, 40] (1 / 2 * 3))"
      using u1 [OF a [of "\<lambda>d. 0"]] by simp
    moreover have "vals r ((\<lambda>d. 0)(''quantile'' := 1))
                     = Some (interpolate [10, 20, 30, 40] (1 * 3))"
      using u1 [OF a [of "(\<lambda>d. 0)(''quantile'' := 1)"]] by simp
    ultimately show ?thesis
      using r(3,4) unfolding d i1 by blast
  qed
  from m(2) have dm: "dom m = {(10, 5), (20, 5)}"
    by simp
  have bad: "\<exists>c \<in> set [(10, 5), (15, 5)]. fst c \<notin> set [10, 20 :: real] \<or> snd c \<notin> set [5 :: real]"
    by simp
  from qs [of "[(10, 5), (15, 5)]"] bad obtain c where
    c: "c \<in> set [(10, 5), (15, 5)]"
    "fst c \<notin> set [10, 20 :: real] \<or> snd c \<notin> set [5 :: real]"
    "xr_quantiles_across_time_by_cell two_cells ?q [(10, 5), (15, 5)]
       = Inl (KeyError (if fst c \<notin> set [10, 20] then fst c else snd c))"
    by blast
  from c(1,2) have "c = (15, 5)"
    by auto
  with c(3) have e: "xr_quantiles_across_time_by_cell two_cells ?q [(10, 5), (15, 5)]
       = Inl (KeyError 15)"
    by simp
  let ?p = "[1 / 10, 2 / 10] :: real list"
  let ?rax = "Stamps (map (\<lambda>k. (1995, k div 30 + 1, k mod 30 + 1)) [0..<100])"
  let ?corners = "[(- 90, - 180), (90, 180)] :: (real \<times> real) list"
  let ?vs = "map (\<lambda>t. real (t + 1)) [0..<100]"
  have rlat: "coord ramp ''lat'' = Some (Nums [- 90, 90])"
    and rlon: "coord ramp ''lon'' = Some (Nums [- 180, 180])"
    and rtime: "coord ramp ''time'' = Some ?rax"
    by (simp_all add: coord_def ramp_def)
  have p: "\<forall>x \<in> set ?p. 0 \<le> x \<and> x \<le> 1"
    by simp
  have rs: "map (\<lambda>t. vals ramp (ix(''time'' := t, ''lat'' := i, ''lon'' := j)))
              [0..<axis_size ?rax] = map Some ?vs" for ix i j
    by (simp add: ramp_def)
  have ri: "interpolate ?vs (1 / 10 * real (length ?vs - 1)) = 109 / 10"
  proof -
    have f: "nat \<lfloor>(1 / 10 :: real) * real (length ?vs - 1)\<rfloor> = 9"
      "nat \<lceil>(1 / 10 :: real) * real (length ?vs - 1)\<rceil> = 10"
      "(of_int \<lfloor>(1 / 10 :: real) * real (length ?vs - 1)\<rfloor> :: real) = 9"
      by simp_all
    show ?thesis
      unfolding interpolate_def f by simp
  qed
  have ru: "r = Some (109 / 10)" if "is_quantile (map Some ?vs) (1 / 10) r" for r
    using is_quantile_unique [OF that sorted_ramp [of 100]] ri
    by (simp only: all_present) simp
  have corners: "\<forall>c \<in> set ?corners. fst c \<in> set [- 90, 90 :: real] \<and> snd c \<in> set [- 180, 180 :: real]"
    by simp
  from quantiles_across_time_by_exact_cell [OF rlat rlon rtime p, of ?corners] corners
  obtain n where
    n: "xr_quantiles_across_time_by_cell ramp ?p ?corners = Inr n"
    "\<forall>c \<in> set ?corners. \<exists>i j r. i < length [- 90, 90 :: real] \<and> [- 90, 90] ! i = fst c
        \<and> j < length [- 180, 180 :: real] \<and> [- 180, 180] ! j = snd c
        \<and> n c = Some r
        \<and> dims r = (''quantile'', Nums ?p)
                     # drop_dims [''time''] (drop_dims [''lat'', ''lon''] (dims ramp))
        \<and> (\<forall>ix. ix ''quantile'' < length ?p \<longrightarrow>
              is_quantile
                (map (\<lambda>t. vals ramp (ix(''time'' := t, ''lat'' := i, ''lon'' := j)))
                   [0..<axis_size ?rax])
                (?p ! ix ''quantile'') (vals r ix))"
    by blast
  have k3: "\<exists>r. n c = Some r \<and> vals r (\<lambda>d. 0) = Some (109 / 10)" if "c \<in> set ?corners" for c
  proof -
    from bspec [OF n(2) that] obtain i j r where
      r: "n c = Some r"
      "\<forall>ix. ix ''quantile'' < length ?p \<longrightarrow>
              is_quantile
                (map (\<lambda>t. vals ramp (ix(''time'' := t, ''lat'' := i, ''lon'' := j)))
                   [0..<axis_size ?rax])
                (?p ! ix ''quantile'') (vals r ix)"
      by blast
    from r(2) have "is_quantile (map Some ?vs) (1 / 10) (vals r (\<lambda>d. 0))"
      unfolding rs by (drule_tac x = "\<lambda>d. 0" in spec) simp
    from ru [OF this] r(1) show ?thesis
      by blast
  qed
  have "\<exists>r. n (- 90, - 180) = Some r \<and> vals r (\<lambda>d. 0) = Some (109 / 10)"
    "\<exists>r. n (90, 180) = Some r \<and> vals r (\<lambda>d. 0) = Some (109 / 10)"
    by (rule k3, simp)+
  with n(1) have k4: "\<exists>m. xr_quantiles_across_time_by_cell ramp ?p ?corners = Inr m
         \<and> (\<exists>r. m (- 90, - 180) = Some r \<and> vals r (\<lambda>d. 0) = Some (109 / 10))
         \<and> (\<exists>r. m (90, 180) = Some r \<and> vals r (\<lambda>d. 0) = Some (109 / 10))"
    by blast
  from m(1) dm k1 k2 have k5: "\<exists>m. xr_quantiles_across_time_by_cell two_cells ?q ?cells = Inr m
         \<and> dom m = {(10, 5), (20, 5)}
         \<and> (\<exists>r. m (10, 5) = Some r \<and> dims r = ?d
               \<and> vals r (\<lambda>d. 0) = Some 2 \<and> vals r ((\<lambda>d. 0)(''quantile'' := 1)) = Some 3)
         \<and> (\<exists>r. m (20, 5) = Some r \<and> dims r = ?d
               \<and> vals r (\<lambda>d. 0) = Some 25 \<and> vals r ((\<lambda>d. 0)(''quantile'' := 1)) = Some 40)"
    by blast
  show ?thesis
    by (intro conjI) (fact lat lon time k5 e k4)+
qed

end
